theory Spec2Isabelle
  imports Complex_Main
begin

section \<open>The glTF importer of ozz-animation (gltf2ozz.cc)\<close>

text \<open>
  A shallow embedding of \<^verbatim>\<open>src/animation/offline/gltf/gltf2ozz.cc\<close>.

  Conventions of the model.
  \<^item> The floats and doubles of the input (buffers, node transforms, declared
    maxima, the sampling rate) are finite numbers of type \<^typ>\<open>real\<close>, and rounding is
    not modelled. What the cubic-spline sampler computes from them is a \<open>float\<close>,
    which is finite or \<open>NonFinite\<close>: a division by zero gives an infinity or a NaN,
    the arithmetic carries it on, and the keys hold it.
  \<^item> A function that returns \<^verbatim>\<open>bool\<close> returns an \<open>outcome\<close>: \<open>Done\<close> for
    \<^verbatim>\<open>true\<close>, \<open>Failed e\<close> for \<^verbatim>\<open>false\<close>, where \<open>e\<close> names the diagnostic
    written to the error log before the return.
  \<^item> A call that does not return to its caller (a failed \<^verbatim>\<open>assert\<close>, a loop that
    never ends) or whose behaviour C++ leaves undefined (a read outside the memory
    an array lives in, a null dereference, the conversion of a floating-point value
    to an integer type that cannot hold it) is \<open>Inl\<close> of an \<open>abnormal\<close> value.
  \<^item> \<^verbatim>\<open>assert\<close> is compiled out when \<^verbatim>\<open>NDEBUG\<close> is defined; the flag
    \<open>ndebug\<close> is a parameter of every function that asserts.
  \<^item> Out-parameters and members written in place are passed in and returned.
  \<^item> A \<^verbatim>\<open>std::string\<close> is a \<^typ>\<open>string\<close>, which may hold the character NUL. A
    \<^verbatim>\<open>const char*\<close> that the caller passes (the name of the animation, the names
    of the joints of the runtime skeleton) is the string before its terminator and
    holds no NUL.
  \<^item> Messages written to the log are not modelled, and no allocation fails.
\<close>

subsection \<open>Results\<close>

datatype error =
    NoScenes | NoSkins | SceneHasNoNodes | NoSkinsInScene
  | MatrixNotEmpty | SkeletonValidationFailed
  | AnimationNotFound | InvalidBufferView | UnknownTargetPath | UnknownInterpolation
  | AnimationValidationFailed

datatype outcome = Done | Failed error

datatype abnormal =
    AssertionFailed | OutOfBounds | NullDereference | BadSizeConversion
  | BadIntConversion | OutOfFuel

definition bindA :: "abnormal + 'a \<Rightarrow> ('a \<Rightarrow> abnormal + 'b) \<Rightarrow> abnormal + 'b" where
  "bindA r f = (case r of Inl e \<Rightarrow> Inl e | Inr v \<Rightarrow> f v)"

text \<open>\<^verbatim>\<open>assert(c)\<close>.\<close>

definition assert_that :: "bool \<Rightarrow> bool \<Rightarrow> abnormal + unit" where
  "assert_that ndebug c = (if ndebug \<or> c then Inr () else Inl AssertionFailed)"

text \<open>\<^verbatim>\<open>p[i]\<close> on a raw pointer or a vector, \<open>xs\<close> being the memory it may read.\<close>

definition read_at :: "'a list \<Rightarrow> nat \<Rightarrow> abnormal + 'a" where
  "read_at xs i = (if i < length xs then Inr (xs ! i) else Inl OutOfBounds)"

text \<open>\<^verbatim>\<open>v[i]\<close> where the index is a C++ \<^verbatim>\<open>int\<close>.\<close>

definition read_int :: "'a list \<Rightarrow> int \<Rightarrow> abnormal + 'a" where
  "read_int xs i = (if 0 \<le> i \<and> nat i < length xs then Inr (xs ! nat i) else Inl OutOfBounds)"

text \<open>\<^verbatim>\<open>std::vector::resize(n)\<close>: \<open>d\<close> is the value-initialised element.\<close>

definition resize_vec :: "nat \<Rightarrow> 'a \<Rightarrow> 'a list \<Rightarrow> 'a list" where
  "resize_vec n d xs = take n xs @ replicate (n - length xs) d"

subsection \<open>Floats\<close>

text \<open>
  A computed \<^verbatim>\<open>float\<close>: a finite number, or \<open>NonFinite\<close> for an infinity or a NaN.
  A sum, a difference or a product with a non-finite operand is not finite (that
  includes \<open>0 * \<infinity>\<close> and \<open>\<infinity> - \<infinity>\<close>, which are NaN), and so is a quotient by zero.
  Every divisor in the file is computed from finite numbers, so \<open>fdiv\<close> takes it as a
  \<^typ>\<open>real\<close>.
\<close>

datatype float = Finite real | NonFinite

fun fadd :: "float \<Rightarrow> float \<Rightarrow> float" where
  "fadd (Finite a) (Finite b) = Finite (a + b)"
| "fadd _ _ = NonFinite"

fun fsub :: "float \<Rightarrow> float \<Rightarrow> float" where
  "fsub (Finite a) (Finite b) = Finite (a - b)"
| "fsub _ _ = NonFinite"

fun fmul :: "float \<Rightarrow> float \<Rightarrow> float" where
  "fmul (Finite a) (Finite b) = Finite (a * b)"
| "fmul _ _ = NonFinite"

fun fdiv :: "float \<Rightarrow> real \<Rightarrow> float" where
  "fdiv (Finite a) b = (if b = 0 then NonFinite else Finite (a / b))"
| "fdiv NonFinite b = NonFinite"

subsection \<open>Values and keys\<close>

datatype Float3 = Float3 float float float

datatype Quaternion = Quaternion float float float float

text \<open>The constructors \<^verbatim>\<open>math::Float3(x, y, z)\<close> and \<^verbatim>\<open>math::Quaternion(x, y, z, w)\<close> on finite numbers.\<close>

abbreviation Float3_of :: "real \<Rightarrow> real \<Rightarrow> real \<Rightarrow> Float3" where
  "Float3_of a b c \<equiv> Float3 (Finite a) (Finite b) (Finite c)"

abbreviation Quaternion_of :: "real \<Rightarrow> real \<Rightarrow> real \<Rightarrow> real \<Rightarrow> Quaternion" where
  "Quaternion_of a b c d \<equiv> Quaternion (Finite a) (Finite b) (Finite c) (Finite d)"

definition Float3_zero :: Float3 where
  "Float3_zero = Float3_of 0 0 0"

definition Float3_one :: Float3 where
  "Float3_one = Float3_of 1 1 1"

definition Quaternion_identity :: Quaternion where
  "Quaternion_identity = Quaternion_of 0 0 0 1"

fun Float3_mul :: "Float3 \<Rightarrow> float \<Rightarrow> Float3" where
  "Float3_mul (Float3 a b c) f = Float3 (fmul a f) (fmul b f) (fmul c f)"

fun Float3_add :: "Float3 \<Rightarrow> Float3 \<Rightarrow> Float3" where
  "Float3_add (Float3 a b c) (Float3 a' b' c') = Float3 (fadd a a') (fadd b b') (fadd c c')"

fun Quaternion_mul :: "Quaternion \<Rightarrow> float \<Rightarrow> Quaternion" where
  "Quaternion_mul (Quaternion a b c d) f = Quaternion (fmul a f) (fmul b f) (fmul c f) (fmul d f)"

fun Quaternion_add :: "Quaternion \<Rightarrow> Quaternion \<Rightarrow> Quaternion" where
  "Quaternion_add (Quaternion a b c d) (Quaternion a' b' c' d') =
     Quaternion (fadd a a') (fadd b b') (fadd c c') (fadd d d')"

record 'v Key =
  time :: float
  key_value :: 'v

text \<open>A value-initialised key, as \<^verbatim>\<open>resize\<close> creates it.\<close>

definition Float3_Key0 :: "Float3 Key" where
  "Float3_Key0 = \<lparr>time = Finite 0, key_value = Float3_of 0 0 0\<rparr>"

definition Quaternion_Key0 :: "Quaternion Key" where
  "Quaternion_Key0 = \<lparr>time = Finite 0, key_value = Quaternion_of 0 0 0 0\<rparr>"

text \<open>
  \<^verbatim>\<open>RawAnimation::JointTrack\<close>; the fields \<^verbatim>\<open>translations\<close>, \<^verbatim>\<open>rotations\<close>
  and \<^verbatim>\<open>scales\<close> are \<open>translationKeys\<close>, \<open>rotationKeys\<close> and \<open>scaleKeys\<close>.
\<close>

record JointTrack =
  translationKeys :: "Float3 Key list"
  rotationKeys :: "Quaternion Key list"
  scaleKeys :: "Float3 Key list"

record RawAnimation =
  name :: string
  duration :: real
  tracks :: "JointTrack list"

definition JointTrack0 :: JointTrack where
  "JointTrack0 = \<lparr>translationKeys = [], rotationKeys = [], scaleKeys = []\<rparr>"

subsection \<open>The glTF model (tinygltf), read only\<close>

record Node =
  node_name :: string
  node_children :: "int list"
  matrix :: "real list"
  translation :: "real list"
  rotation :: "real list"
  scale :: "real list"

record Skin =
  joints :: "int list"

record Scene =
  scene_name :: string
  scene_nodes :: "int list"

text \<open>
  An accessor. \<open>memory\<close> stands for the buffer it points into: the 32-bit floats
  stored from the address \<^verbatim>\<open>buffer.data.data() + bufferView.byteOffset +
  accessor.byteOffset\<close> to the end of the buffer. A read beyond it is out of bounds.
\<close>

record Accessor =
  componentType :: int
  acc_type :: int
  count :: nat
  maxValues :: "real list"
  memory :: "real list"

record AnimationSampler =
  smp_input :: int
  smp_output :: int
  interpolation :: string

record AnimationChannel =
  sampler :: int
  target_node :: int
  target_path :: string

record Animation =
  anim_name :: string
  channels :: "AnimationChannel list"
  samplers :: "AnimationSampler list"

record Model =
  scenes :: "Scene list"
  defaultScene :: int
  nodes :: "Node list"
  skins :: "Skin list"
  animations :: "Animation list"
  accessors :: "Accessor list"

subsection \<open>What the file uses of tinygltf and ozz without defining it\<close>

datatype Transform = Transform Float3 Quaternion Float3

datatype Joint = Joint string Transform "Joint list"

record RawSkeleton =
  roots :: "Joint list"

text \<open>
  The helpers of \<^verbatim>\<open>tiny_gltf.h\<close> and of the ozz library that the file calls.
  Their sources are not part of the file, so they are parameters of the model.
\<close>

record library =
  GetComponentSizeInBytes :: "int \<Rightarrow> int"
  GetTypeSizeInBytes :: "int \<Rightarrow> int"
  TYPE_SCALAR :: int
  TYPE_VEC3 :: int
  TYPE_VEC4 :: int
  Normalize :: "Quaternion \<Rightarrow> Quaternion"
  Validate_animation :: "RawAnimation \<Rightarrow> bool"
  Validate_skeleton :: "RawSkeleton \<Rightarrow> bool"

subsection \<open>BufferView\<close>

fun chunk3 :: "real list \<Rightarrow> Float3 list" where
  "chunk3 (a # b # c # r) = Float3_of a b c # chunk3 r"
| "chunk3 _ = []"

fun chunk4 :: "real list \<Rightarrow> Quaternion list" where
  "chunk4 (a # b # c # d # r) = Quaternion_of a b c d # chunk4 r"
| "chunk4 _ = []"

text \<open>
  \<^verbatim>\<open>BufferView<T>(accessor)\<close>: \<open>None\<close> is the null pointer. \<open>size_of\<close> is
  \<^verbatim>\<open>sizeof(T)\<close> and \<open>decode\<close> reads the floats as an array of \<^verbatim>\<open>T\<close>.
\<close>

definition BufferView :: "library \<Rightarrow> int \<Rightarrow> (real list \<Rightarrow> 'a list) \<Rightarrow> Accessor \<Rightarrow> 'a list option" where
  "BufferView lib size_of decode accessor =
     (let componentSize = GetComponentSizeInBytes lib (componentType accessor);
          elementSize = componentSize * GetTypeSizeInBytes lib (acc_type accessor)
      in if elementSize \<noteq> size_of then None else Some (decode (memory accessor)))"

definition BufferView_float :: "library \<Rightarrow> Accessor \<Rightarrow> real list option" where
  "BufferView_float lib = BufferView lib 4 (\<lambda>fs. fs)"

definition BufferView_Float3 :: "library \<Rightarrow> Accessor \<Rightarrow> Float3 list option" where
  "BufferView_Float3 lib = BufferView lib 12 chunk3"

definition BufferView_Quaternion :: "library \<Rightarrow> Accessor \<Rightarrow> Quaternion list option" where
  "BufferView_Quaternion lib = BufferView lib 16 chunk4"

subsection \<open>SampleLinearChannel\<close>

function linear_loop :: "nat \<Rightarrow> 'v list \<Rightarrow> real list \<Rightarrow> nat \<Rightarrow> 'v Key list \<Rightarrow> abnormal + 'v Key list" where
  "linear_loop cnt vals timestamps i keyframes =
     (if i < cnt then
        bindA (read_at timestamps i) (\<lambda>t.
        bindA (read_at vals i) (\<lambda>v.
          linear_loop cnt vals timestamps (i + 1)
            (keyframes[i := \<lparr>time = Finite t, key_value = v\<rparr>])))
      else Inr keyframes)"
  by pat_completeness auto
termination
  by (relation "measure (\<lambda>(cnt, vals, timestamps, i, keyframes). cnt - i)") auto

definition SampleLinearChannel ::
  "(Accessor \<Rightarrow> 'v list option) \<Rightarrow> 'v Key \<Rightarrow> Accessor \<Rightarrow> real list \<Rightarrow> 'v Key list
     \<Rightarrow> abnormal + outcome \<times> 'v Key list" where
  "SampleLinearChannel view key0 out timestamps keyframes =
     (case view out of
        None \<Rightarrow> Inr (Failed InvalidBufferView, keyframes)
      | Some vals \<Rightarrow>
          bindA (linear_loop (count out) vals timestamps 0 (resize_vec (count out) key0 keyframes))
            (\<lambda>ks. Inr (Done, ks)))"

subsection \<open>SampleStepChannel\<close>

definition eps :: real where
  "eps = 1 / 1000000"

function step_loop :: "nat \<Rightarrow> 'v list \<Rightarrow> real list \<Rightarrow> nat \<Rightarrow> 'v Key list \<Rightarrow> abnormal + 'v Key list" where
  "step_loop cnt vals timestamps i keyframes =
     (if i < cnt then
        bindA (read_at timestamps i) (\<lambda>t.
        bindA (read_at vals i) (\<lambda>v.
          let keyframes1 = keyframes[i * 2 := \<lparr>time = Finite t, key_value = v\<rparr>] in
          if i < cnt - 1 then
            bindA (read_at timestamps (i + 1)) (\<lambda>t'.
              step_loop cnt vals timestamps (i + 1)
                (keyframes1[i * 2 + 1 := \<lparr>time = Finite (t' - eps), key_value = v\<rparr>]))
          else step_loop cnt vals timestamps (i + 1) keyframes1))
      else Inr keyframes)"
  by pat_completeness auto
termination
  by (relation "measure (\<lambda>(cnt, vals, timestamps, i, keyframes). cnt - i)") auto

definition SampleStepChannel ::
  "(Accessor \<Rightarrow> 'v list option) \<Rightarrow> 'v Key \<Rightarrow> Accessor \<Rightarrow> real list \<Rightarrow> 'v Key list
     \<Rightarrow> abnormal + outcome \<times> 'v Key list" where
  "SampleStepChannel view key0 out timestamps keyframes =
     (case view out of
        None \<Rightarrow> Inr (Failed InvalidBufferView, keyframes)
      | Some vals \<Rightarrow>
          (let numKeyframes = count out * 2 in
           bindA (step_loop (count out) vals timestamps 0 (resize_vec numKeyframes key0 keyframes))
             (\<lambda>ks. Inr (Done, ks))))"

subsection \<open>SampleHermiteSpline and SampleCubicSplineChannel\<close>

text \<open>
  \<open>vmul\<close> and \<open>vadd\<close> are \<^verbatim>\<open>operator*\<close> (by a float) and \<^verbatim>\<open>operator+\<close> of the
  template's value type.
\<close>

definition SampleHermiteSpline ::
  "('v \<Rightarrow> float \<Rightarrow> 'v) \<Rightarrow> ('v \<Rightarrow> 'v \<Rightarrow> 'v) \<Rightarrow> float \<Rightarrow> 'v \<Rightarrow> 'v \<Rightarrow> 'v \<Rightarrow> 'v \<Rightarrow> 'v" where
  "SampleHermiteSpline vmul vadd t p0 m0 p1 m1 =
     (let t2 = fmul t t;
          t3 = fmul t2 t;
          a = fadd (fsub (fmul (Finite 2) t3) (fmul (Finite 3) t2)) (Finite 1);
          b = fadd (fsub t3 (fmul (Finite 2) t2)) t;
          c = fadd (fmul (Finite (- 2)) t3) (fmul (Finite 3) t2);
          d = fsub t3 t2
      in vadd (vadd (vadd (vmul p0 a) (vmul m0 b)) (vmul p1 c)) (vmul m1 d))"

text \<open>\<^verbatim>\<open>n - 1\<close> on a 64-bit \<^verbatim>\<open>size_t\<close>.\<close>

definition size_t_pred :: "nat \<Rightarrow> nat" where
  "size_t_pred n = (if n = 0 then 2 ^ 64 - 1 else n - 1)"

text \<open>
  \<^verbatim>\<open>timestamps[currentKey] > time\<close>. The time is \<^verbatim>\<open>(float)i / samplingRate\<close>, where the
  rate was converted from an \<^verbatim>\<open>int\<close>: when it is not finite the rate is \<open>+0\<close> and the
  time is a NaN (for \<open>i = 0\<close>) or \<open>+\<infinity>\<close>, and no timestamp is greater.
\<close>

fun greater_than :: "real \<Rightarrow> float \<Rightarrow> bool" where
  "greater_than x (Finite t) = (x > t)"
| "greater_than x NonFinite = False"

text \<open>
  The inner loop
  \<^verbatim>\<open>while (timestamps[currentKey] > time && currentKey < numKeyframes - 1) currentKey++;\<close>
  with \<open>bound\<close> the value of \<^verbatim>\<open>numKeyframes - 1\<close>. The timestamp is read before the
  bound is tested.
\<close>

function advance :: "real list \<Rightarrow> float \<Rightarrow> nat \<Rightarrow> nat \<Rightarrow> abnormal + nat" where
  "advance timestamps t bound currentKey =
     (if currentKey < length timestamps then
        (if greater_than (timestamps ! currentKey) t \<and> currentKey < bound
         then advance timestamps t bound (currentKey + 1)
         else Inr currentKey)
      else Inl OutOfBounds)"
  by pat_completeness auto
termination
  by (relation "measure (\<lambda>(timestamps, t, bound, currentKey). length timestamps - currentKey)") auto

text \<open>
  One round of the outer loop, for destination key \<open>i\<close>: the cursor after the inner
  loop and the key written.
\<close>

definition spline_key ::
  "('v \<Rightarrow> float \<Rightarrow> 'v) \<Rightarrow> ('v \<Rightarrow> 'v \<Rightarrow> 'v) \<Rightarrow> 'v list \<Rightarrow> real list \<Rightarrow> real \<Rightarrow> nat \<Rightarrow> nat \<Rightarrow> nat
     \<Rightarrow> abnormal + nat \<times> 'v Key" where
  "spline_key vmul vadd vals timestamps samplingRate numKeyframes i currentKey0 =
     (let t = fdiv (Finite (real i)) samplingRate in
      bindA (advance timestamps t (size_t_pred numKeyframes) currentKey0) (\<lambda>currentKey.
      bindA (read_at timestamps currentKey) (\<lambda>currentTime.
      bindA (read_at timestamps (currentKey + 1)) (\<lambda>nextTime.
      bindA (read_at vals (currentKey * 3 + 2)) (\<lambda>out_tangent.
      bindA (read_at vals ((currentKey + 1) * 3)) (\<lambda>in_tangent.
      bindA (read_at vals (currentKey * 3 + 1)) (\<lambda>p0.
      bindA (read_at vals ((currentKey + 1) * 3 + 1)) (\<lambda>p1.
        let u = fdiv (fsub t (Finite currentTime)) (nextTime - currentTime);
            m0 = vmul out_tangent (Finite (nextTime - currentTime));
            m1 = vmul in_tangent (Finite (nextTime - currentTime))
        in Inr (currentKey,
                \<lparr>time = t, key_value = SampleHermiteSpline vmul vadd u p0 m0 p1 m1\<rparr>)))))))))"

function spline_loop ::
  "('v \<Rightarrow> float \<Rightarrow> 'v) \<Rightarrow> ('v \<Rightarrow> 'v \<Rightarrow> 'v) \<Rightarrow> 'v list \<Rightarrow> real list \<Rightarrow> real \<Rightarrow> nat \<Rightarrow> nat \<Rightarrow> nat
     \<Rightarrow> 'v Key list \<Rightarrow> abnormal + 'v Key list" where
  "spline_loop vmul vadd vals timestamps samplingRate numKeyframes i currentKey keyframes =
     (if i < length keyframes then
        (case spline_key vmul vadd vals timestamps samplingRate numKeyframes i currentKey of
           Inl e \<Rightarrow> Inl e
         | Inr (currentKey', key) \<Rightarrow>
             spline_loop vmul vadd vals timestamps samplingRate numKeyframes (i + 1) currentKey'
               (keyframes[i := key]))
      else Inr keyframes)"
  by pat_completeness auto
termination
  by (relation "measure (\<lambda>(vmul, vadd, vals, timestamps, samplingRate, numKeyframes, i, currentKey,
        keyframes). length keyframes - i)") auto

text \<open>
  \<^verbatim>\<open>keyframes.resize(floor(duration * samplingRate) + 1)\<close> converts a floating-point
  value to a 64-bit \<^verbatim>\<open>size_t\<close>; a value that is negative or too large has no such
  conversion.
\<close>

definition SampleCubicSplineChannel ::
  "bool \<Rightarrow> (Accessor \<Rightarrow> 'v list option) \<Rightarrow> ('v \<Rightarrow> float \<Rightarrow> 'v) \<Rightarrow> ('v \<Rightarrow> 'v \<Rightarrow> 'v) \<Rightarrow> 'v Key
     \<Rightarrow> Accessor \<Rightarrow> real list \<Rightarrow> 'v Key list \<Rightarrow> real \<Rightarrow> real
     \<Rightarrow> abnormal + outcome \<times> 'v Key list" where
  "SampleCubicSplineChannel ndebug view vmul vadd key0 out timestamps keyframes samplingRate dur =
     (case view out of
        None \<Rightarrow> Inr (Failed InvalidBufferView, keyframes)
      | Some vals \<Rightarrow>
          bindA (assert_that ndebug (count out mod 3 = 0)) (\<lambda>_.
          let numKeyframes = count out div 3;
              n = \<lfloor>dur * samplingRate\<rfloor> + 1
          in if n < 0 \<or> 2 ^ 64 \<le> n then Inl BadSizeConversion else
             bindA (spline_loop vmul vadd vals timestamps samplingRate numKeyframes 0 0
                      (resize_vec (nat n) key0 keyframes))
               (\<lambda>ks. Inr (Done, ks))))"

subsection \<open>SampleAnimationChannel\<close>

text \<open>
  The parameter \<^verbatim>\<open>samplingRate\<close> of \<^verbatim>\<open>SampleAnimationChannel\<close> is declared
  \<^verbatim>\<open>int\<close>; its caller passes a \<^verbatim>\<open>float\<close>, which is truncated towards zero, and
  the cubic-spline sampler receives the integer converted back. The conversion is
  defined where the truncated value fits a 32-bit \<^verbatim>\<open>int\<close>; it is made when the
  function is called, before its body runs.
\<close>

definition float_to_int :: "real \<Rightarrow> abnormal + int" where
  "float_to_int r =
     (let i = (if 0 \<le> r then \<lfloor>r\<rfloor> else \<lceil>r\<rceil>)
      in if - (2 ^ 31) \<le> i \<and> i < 2 ^ 31 then Inr i else Inl BadIntConversion)"

text \<open>
  The result is the outcome, the new value of \<^verbatim>\<open>outDuration\<close> and the new value
  of \<^verbatim>\<open>track\<close>.
\<close>

definition sample_by_path ::
  "string \<Rightarrow> JointTrack
     \<Rightarrow> (Float3 Key list \<Rightarrow> abnormal + outcome \<times> Float3 Key list)
     \<Rightarrow> (Quaternion Key list \<Rightarrow> abnormal + outcome \<times> Quaternion Key list)
     \<Rightarrow> abnormal + outcome \<times> JointTrack" where
  "sample_by_path targetPath track sample3 sample4 =
     (if targetPath = ''translation'' then
        bindA (sample3 (translationKeys track)) (\<lambda>(r, ks). Inr (r, track\<lparr>translationKeys := ks\<rparr>))
      else if targetPath = ''rotation'' then
        bindA (sample4 (rotationKeys track)) (\<lambda>(r, ks). Inr (r, track\<lparr>rotationKeys := ks\<rparr>))
      else if targetPath = ''scale'' then
        bindA (sample3 (scaleKeys track)) (\<lambda>(r, ks). Inr (r, track\<lparr>scaleKeys := ks\<rparr>))
      else Inr (Failed UnknownTargetPath, track))"

definition SampleAnimationChannel ::
  "library \<Rightarrow> bool \<Rightarrow> Model \<Rightarrow> AnimationSampler \<Rightarrow> string \<Rightarrow> real \<Rightarrow> JointTrack \<Rightarrow> real
     \<Rightarrow> abnormal + outcome \<times> real \<times> JointTrack" where
  "SampleAnimationChannel lib ndebug m smp targetPath outDuration0 track samplingRate0 =
     bindA (float_to_int samplingRate0) (\<lambda>rate.
      let samplingRate = real_of_int rate in
      bindA (read_int (accessors m) (smp_input smp)) (\<lambda>inp.
      bindA (assert_that ndebug (length (maxValues inp) = 1)) (\<lambda>_.
      bindA (read_at (maxValues inp) 0) (\<lambda>dur.
      let outDuration = (if dur > outDuration0 then dur else outDuration0) in
      bindA (assert_that ndebug (acc_type inp = TYPE_SCALAR lib)) (\<lambda>_.
      bindA (read_int (accessors m) (smp_output smp)) (\<lambda>out.
      bindA (assert_that ndebug (acc_type out = TYPE_VEC3 lib \<or> acc_type out = TYPE_VEC4 lib)) (\<lambda>_.
      case BufferView_float lib inp of
        None \<Rightarrow> Inr (Failed InvalidBufferView, outDuration, track)
      | Some timestamps \<Rightarrow>
          bindA
            (if interpolation smp = [] \<or> interpolation smp = ''LINEAR'' then
               bindA (assert_that ndebug (count inp = count out)) (\<lambda>_.
                 sample_by_path targetPath track
                   (SampleLinearChannel (BufferView_Float3 lib) Float3_Key0 out timestamps)
                   (SampleLinearChannel (BufferView_Quaternion lib) Quaternion_Key0 out timestamps))
             else if interpolation smp = ''STEP'' then
               bindA (assert_that ndebug (count inp = count out)) (\<lambda>_.
                 sample_by_path targetPath track
                   (SampleStepChannel (BufferView_Float3 lib) Float3_Key0 out timestamps)
                   (SampleStepChannel (BufferView_Quaternion lib) Quaternion_Key0 out timestamps))
             else if interpolation smp = ''CUBICSPLINE'' then
               bindA (assert_that ndebug (count inp * 3 = count out)) (\<lambda>_.
                 sample_by_path targetPath track
                   (\<lambda>ks. SampleCubicSplineChannel ndebug (BufferView_Float3 lib) Float3_mul Float3_add
                      Float3_Key0 out timestamps ks samplingRate dur)
                   (\<lambda>ks. bindA (SampleCubicSplineChannel ndebug (BufferView_Quaternion lib)
                            Quaternion_mul Quaternion_add Quaternion_Key0 out timestamps ks
                            samplingRate dur)
                          (\<lambda>(r, ks'). case r of
                               Failed e \<Rightarrow> Inr (Failed e, ks')
                             | Done \<Rightarrow> Inr (Done, map (\<lambda>key. key\<lparr>key_value := Normalize lib (key_value key)\<rparr>) ks'))))
             else Inr (Failed UnknownInterpolation, track))
            (\<lambda>(r, track'). Inr (r, outDuration, track')))))))))"

subsection \<open>The importer's own state\<close>

text \<open>
  \<open>existingNames\<close> is the function-local \<^verbatim>\<open>static\<close> map of \<^verbatim>\<open>CreateJointName\<close>;
  \<open>m_nodeNames\<close> is the member of that name. Both are \<^verbatim>\<open>unordered_map\<close>s, kept here as
  association lists read with \<^const>\<open>map_of\<close>; \<^verbatim>\<open>insert\<close> leaves the entry of a key
  that is already present as it is.
\<close>

record GltfImporter =
  existingNames :: "(string \<times> int) list"
  m_nodeNames :: "(int \<times> string) list"

definition map_insert :: "'k \<Rightarrow> 'v \<Rightarrow> ('k \<times> 'v) list \<Rightarrow> ('k \<times> 'v) list" where
  "map_insert k v kvs = (case map_of kvs k of None \<Rightarrow> kvs @ [(k, v)] | Some _ \<Rightarrow> kvs)"

text \<open>\<^verbatim>\<open>stream << n\<close> for an \<^verbatim>\<open>int\<close>: the decimal digits.\<close>

fun show_nat :: "nat \<Rightarrow> string" where
  "show_nat n =
     (if n < 10 then [''0123456789'' ! n]
      else show_nat (n div 10) @ [''0123456789'' ! (n mod 10)])"

definition show_int :: "int \<Rightarrow> string" where
  "show_int i = (if i < 0 then CHR ''-'' # show_nat (nat (- i)) else show_nat (nat i))"

text \<open>
  \<^verbatim>\<open>s.c_str()\<close> assigned to an \<^verbatim>\<open>ozz::String\<close>: the characters before the first NUL.
\<close>

definition c_str :: "string \<Rightarrow> string" where
  "c_str s = takeWhile (\<lambda>c. c \<noteq> CHR 0x00) s"

subsection \<open>CreateJointName\<close>

definition CreateJointName :: "Model \<Rightarrow> int \<Rightarrow> GltfImporter \<Rightarrow> abnormal + string \<times> GltfImporter" where
  "CreateJointName m nodeIndex st =
     bindA (read_int (nodes m) nodeIndex) (\<lambda>node.
       let name0 = (if length (node_name node) = 0 then ''gltf_node_'' @ show_int nodeIndex
                    else node_name node);
           name1 = (case map_of (existingNames st) name0 of
                      None \<Rightarrow> name0
                    | Some _ \<Rightarrow> name0 @ ''_'' @ show_int nodeIndex)
       in Inr (name1,
               st\<lparr>existingNames := map_insert name1 nodeIndex (existingNames st),
                  m_nodeNames := map_insert nodeIndex name1 (m_nodeNames st)\<rparr>))"

subsection \<open>CreateNodeTransform\<close>

definition read_Float3 :: "real list \<Rightarrow> abnormal + Float3" where
  "read_Float3 v =
     bindA (read_at v 0) (\<lambda>a. bindA (read_at v 1) (\<lambda>b. bindA (read_at v 2) (\<lambda>c.
       Inr (Float3_of a b c))))"

definition read_Quaternion :: "real list \<Rightarrow> abnormal + Quaternion" where
  "read_Quaternion v =
     bindA (read_at v 0) (\<lambda>a. bindA (read_at v 1) (\<lambda>b. bindA (read_at v 2) (\<lambda>c.
     bindA (read_at v 3) (\<lambda>d. Inr (Quaternion_of a b c d)))))"

text \<open>\<open>None\<close> is the return of \<^verbatim>\<open>false\<close>; \<^verbatim>\<open>Transform::identity()\<close> is the default.\<close>

definition CreateNodeTransform :: "Node \<Rightarrow> abnormal + Transform option" where
  "CreateNodeTransform node =
     (if length (matrix node) \<noteq> 0 then Inr None
      else
        bindA (if translation node \<noteq> [] then read_Float3 (translation node) else Inr Float3_zero) (\<lambda>t.
        bindA (if rotation node \<noteq> [] then read_Quaternion (rotation node) else Inr Quaternion_identity) (\<lambda>r.
        bindA (if scale node \<noteq> [] then read_Float3 (scale node) else Inr Float3_one) (\<lambda>s.
          Inr (Some (Transform t r s))))))"

subsection \<open>ImportChildren\<close>

text \<open>
  \<^verbatim>\<open>ImportChildren(node, parent)\<close> loops over \<^verbatim>\<open>node.children\<close>; the function below
  takes the children still to visit and returns the joints pushed to
  \<^verbatim>\<open>parent.children\<close>. The recursion follows the node graph, which may have a
  cycle: \<open>fuel\<close> bounds its depth.
\<close>

fun ImportChildren ::
  "nat \<Rightarrow> Model \<Rightarrow> int list \<Rightarrow> GltfImporter \<Rightarrow> abnormal + outcome \<times> Joint list \<times> GltfImporter" where
  "ImportChildren 0 m cs st = Inl OutOfFuel"
| "ImportChildren (Suc fuel) m [] st = Inr (Done, [], st)"
| "ImportChildren (Suc fuel) m (childIndex # cs) st =
     bindA (read_int (nodes m) childIndex) (\<lambda>childNode.
     bindA (CreateJointName m childIndex st) (\<lambda>(nm, st1).
     bindA (CreateNodeTransform childNode) (\<lambda>tr.
       case tr of
         None \<Rightarrow> Inr (Failed MatrixNotEmpty, [], st1)
       | Some transform \<Rightarrow>
           bindA (ImportChildren fuel m (node_children childNode) st1) (\<lambda>(r, kids, st2).
             case r of
               Failed e \<Rightarrow> Inr (Failed e, [], st2)
             | Done \<Rightarrow>
                 bindA (ImportChildren (Suc fuel) m cs st2) (\<lambda>(r', rest, st3).
                   Inr (r', Joint (c_str nm) transform kids # rest, st3))))))"

subsection \<open>FindSkinRootJointIndex\<close>

fun insert_children :: "int \<Rightarrow> int list \<Rightarrow> (int \<times> int) list \<Rightarrow> (int \<times> int) list" where
  "insert_children nodeIndex [] parents = parents"
| "insert_children nodeIndex (childIndex # cs) parents =
     insert_children nodeIndex cs (map_insert childIndex nodeIndex parents)"

fun build_parents :: "Model \<Rightarrow> int list \<Rightarrow> (int \<times> int) list \<Rightarrow> abnormal + (int \<times> int) list" where
  "build_parents m [] parents = Inr parents"
| "build_parents m (nodeIndex # js) parents =
     bindA (read_int (nodes m) nodeIndex) (\<lambda>node.
       build_parents m js (insert_children nodeIndex (node_children node) parents))"

fun climb :: "nat \<Rightarrow> (int \<times> int) list \<Rightarrow> int \<Rightarrow> abnormal + int" where
  "climb 0 parents rootBoneIndex = Inl OutOfFuel"
| "climb (Suc fuel) parents rootBoneIndex =
     (case map_of parents rootBoneIndex of
        None \<Rightarrow> Inr rootBoneIndex
      | Some p \<Rightarrow> climb fuel parents p)"

definition FindSkinRootJointIndex :: "nat \<Rightarrow> Model \<Rightarrow> Skin \<Rightarrow> abnormal + int" where
  "FindSkinRootJointIndex fuel m skin =
     (if joints skin = [] then Inr (- 1)
      else bindA (build_parents m (joints skin) []) (\<lambda>parents.
             climb fuel parents (hd (joints skin))))"

subsection \<open>GetSkinsForScene\<close>

text \<open>A \<^verbatim>\<open>std::set<int>\<close> is an ascending list without repetition.\<close>

definition set_insert :: "int \<Rightarrow> int list \<Rightarrow> int list" where
  "set_insert x xs = (if x \<in> set xs then xs else insort x xs)"

fun traverse :: "nat \<Rightarrow> Model \<Rightarrow> int list \<Rightarrow> int list \<Rightarrow> abnormal + int list" where
  "traverse 0 m opn found = Inl OutOfFuel"
| "traverse (Suc fuel) m [] found = Inr found"
| "traverse (Suc fuel) m (nodeIndex # opn) found =
     bindA (read_int (nodes m) nodeIndex) (\<lambda>node.
       traverse fuel m (foldl (\<lambda>s c. set_insert c s) opn (node_children node))
         (set_insert nodeIndex found))"

definition GetSkinsForScene :: "nat \<Rightarrow> Model \<Rightarrow> Scene \<Rightarrow> abnormal + Skin list" where
  "GetSkinsForScene fuel m scene =
     bindA (traverse fuel m (foldl (\<lambda>s c. set_insert c s) [] (scene_nodes scene)) []) (\<lambda>found.
       Inr (filter (\<lambda>skin. joints skin \<noteq> [] \<and> hd (joints skin) \<in> set found) (skins m)))"

subsection \<open>Import (skeleton)\<close>

fun root_indices :: "nat \<Rightarrow> Model \<Rightarrow> Skin list \<Rightarrow> int list \<Rightarrow> abnormal + int list" where
  "root_indices fuel m [] rootJoints = Inr rootJoints"
| "root_indices fuel m (skin # sks) rootJoints =
     bindA (FindSkinRootJointIndex fuel m skin) (\<lambda>rootJointIndex.
       if rootJointIndex = - 1 then root_indices fuel m sks rootJoints
       else root_indices fuel m sks (set_insert rootJointIndex rootJoints))"

fun import_roots ::
  "nat \<Rightarrow> Model \<Rightarrow> int list \<Rightarrow> GltfImporter \<Rightarrow> RawSkeleton
     \<Rightarrow> abnormal + outcome \<times> RawSkeleton \<times> GltfImporter" where
  "import_roots fuel m [] st skeleton = Inr (Done, skeleton, st)"
| "import_roots fuel m (rootJointIndex # rs) st skeleton =
     bindA (read_int (nodes m) rootJointIndex) (\<lambda>rootBone.
     bindA (CreateJointName m rootJointIndex st) (\<lambda>(nm, st1).
     bindA (CreateNodeTransform rootBone) (\<lambda>tr.
       case tr of
         None \<Rightarrow> Inr (Failed MatrixNotEmpty, skeleton, st1)
       | Some transform \<Rightarrow>
           bindA (ImportChildren fuel m (node_children rootBone) st1) (\<lambda>(r, kids, st2).
             case r of
               Failed e \<Rightarrow> Inr (Failed e, skeleton, st2)
             | Done \<Rightarrow>
                 import_roots fuel m rs st2
                   (skeleton\<lparr>roots := roots skeleton @ [Joint (c_str nm) transform kids]\<rparr>)))))"

text \<open>
  \<^verbatim>\<open>Import(RawSkeleton* skeleton, const NodeType& types)\<close>; \<^verbatim>\<open>types\<close> is not used.
  \<open>fuel\<close> bounds every loop over the node graph.
\<close>

definition Import_skeleton ::
  "library \<Rightarrow> nat \<Rightarrow> Model \<Rightarrow> GltfImporter \<Rightarrow> RawSkeleton
     \<Rightarrow> abnormal + outcome \<times> RawSkeleton \<times> GltfImporter" where
  "Import_skeleton lib fuel m st skeleton =
     (if scenes m = [] then Inr (Failed NoScenes, skeleton, st)
      else if skins m = [] then Inr (Failed NoSkins, skeleton, st)
      else
        let scene_index = (if defaultScene m = - 1 then 0 else defaultScene m) in
        bindA (read_int (scenes m) scene_index) (\<lambda>scene.
          if scene_nodes scene = [] then Inr (Failed SceneHasNoNodes, skeleton, st)
          else
            bindA (GetSkinsForScene fuel m scene) (\<lambda>sks.
              if sks = [] then Inr (Failed NoSkinsInScene, skeleton, st)
              else
                bindA (root_indices fuel m sks []) (\<lambda>rootJoints.
                bindA (import_roots fuel m rootJoints st skeleton) (\<lambda>(r, skeleton', st').
                  case r of
                    Failed e \<Rightarrow> Inr (Failed e, skeleton', st')
                  | Done \<Rightarrow>
                      if \<not> Validate_skeleton lib skeleton'
                      then Inr (Failed SkeletonValidationFailed, skeleton', st')
                      else Inr (Done, skeleton', st'))))))"

text \<open>The names of the joints of a skeleton, depth first.\<close>

fun joint_names :: "Joint \<Rightarrow> string list" where
  "joint_names (Joint nm tr kids) = nm # concat (map joint_names kids)"

definition skeleton_names :: "RawSkeleton \<Rightarrow> string list" where
  "skeleton_names skeleton = concat (map joint_names (roots skeleton))"

subsection \<open>FindNodeByName and the bind pose keys\<close>

text \<open>\<open>None\<close> is the null pointer.\<close>

definition FindNodeByName :: "Model \<Rightarrow> GltfImporter \<Rightarrow> string \<Rightarrow> Node option" where
  "FindNodeByName m st nm =
     (case find (\<lambda>nodeIndex. map_of (m_nodeNames st) (int nodeIndex) = Some nm)
             [0 ..< length (nodes m)] of
        None \<Rightarrow> None
      | Some nodeIndex \<Rightarrow> Some (nodes m ! nodeIndex))"

definition CreateTranslationBindPoseKey :: "Node \<Rightarrow> abnormal + Float3 Key" where
  "CreateTranslationBindPoseKey node =
     bindA (if translation node \<noteq> [] then read_Float3 (translation node) else Inr Float3_zero)
       (\<lambda>v. Inr \<lparr>time = Finite 0, key_value = v\<rparr>)"

definition CreateRotationBindPoseKey :: "Node \<Rightarrow> abnormal + Quaternion Key" where
  "CreateRotationBindPoseKey node =
     bindA (if rotation node \<noteq> [] then read_Quaternion (rotation node) else Inr Quaternion_identity)
       (\<lambda>v. Inr \<lparr>time = Finite 0, key_value = v\<rparr>)"

definition CreateScaleBindPoseKey :: "Node \<Rightarrow> abnormal + Float3 Key" where
  "CreateScaleBindPoseKey node =
     bindA (if scale node \<noteq> [] then read_Float3 (scale node) else Inr Float3_one)
       (\<lambda>v. Inr \<lparr>time = Finite 0, key_value = v\<rparr>)"

subsection \<open>Import (animation)\<close>

text \<open>
  \<^verbatim>\<open>channelsPerJoint[targetNode.name].push_back(channel)\<close> on the map from names to
  channel vectors, and the lookup \<^verbatim>\<open>channelsPerJoint[jointNames[i]]\<close> (an absent key
  reads as the empty vector).
\<close>

fun push_back_at :: "string \<Rightarrow> 'c \<Rightarrow> (string \<times> 'c list) list \<Rightarrow> (string \<times> 'c list) list" where
  "push_back_at k c [] = [(k, [c])]"
| "push_back_at k c ((k', cs) # rest) =
     (if k = k' then (k', cs @ [c]) # rest else (k', cs) # push_back_at k c rest)"

definition channels_at :: "(string \<times> 'c list) list \<Rightarrow> string \<Rightarrow> 'c list" where
  "channels_at channelsPerJoint k = (case map_of channelsPerJoint k of None \<Rightarrow> [] | Some cs \<Rightarrow> cs)"

fun group_channels ::
  "Model \<Rightarrow> AnimationChannel list \<Rightarrow> (string \<times> AnimationChannel list) list
     \<Rightarrow> abnormal + (string \<times> AnimationChannel list) list" where
  "group_channels m [] channelsPerJoint = Inr channelsPerJoint"
| "group_channels m (channel # cs) channelsPerJoint =
     (if target_node channel = - 1 then group_channels m cs channelsPerJoint
      else
        bindA (read_int (nodes m) (target_node channel)) (\<lambda>targetNode.
          group_channels m cs (push_back_at (node_name targetNode) channel channelsPerJoint)))"

text \<open>
  The loop over the channels of one joint. It returns the outcome with the values of
  \<^verbatim>\<open>animation->duration\<close> and of the joint's track at that moment.
\<close>

fun sample_channels ::
  "library \<Rightarrow> bool \<Rightarrow> Model \<Rightarrow> Animation \<Rightarrow> real \<Rightarrow> AnimationChannel list \<Rightarrow> real \<Rightarrow> JointTrack
     \<Rightarrow> abnormal + outcome \<times> real \<times> JointTrack" where
  "sample_channels lib ndebug m gltfAnimation samplingRate [] dur track = Inr (Done, dur, track)"
| "sample_channels lib ndebug m gltfAnimation samplingRate (channel # cs) dur track =
     bindA (read_int (samplers gltfAnimation) (sampler channel)) (\<lambda>smp.
     bindA (SampleAnimationChannel lib ndebug m smp (target_path channel) dur track samplingRate)
       (\<lambda>(r, dur', track').
          case r of
            Failed e \<Rightarrow> Inr (Failed e, dur', track')
          | Done \<Rightarrow> sample_channels lib ndebug m gltfAnimation samplingRate cs dur' track'))"

text \<open>
  The padding of one track with the bind pose. \<^verbatim>\<open>*node\<close> is evaluated only where a
  key sequence is empty.
\<close>

definition pad_translation :: "Node option \<Rightarrow> JointTrack \<Rightarrow> abnormal + JointTrack" where
  "pad_translation node track =
     (if translationKeys track = [] then
        (case node of
           None \<Rightarrow> Inl NullDereference
         | Some n \<Rightarrow> bindA (CreateTranslationBindPoseKey n)
                      (\<lambda>k. Inr (track\<lparr>translationKeys := translationKeys track @ [k]\<rparr>)))
      else Inr track)"

definition pad_rotation :: "Node option \<Rightarrow> JointTrack \<Rightarrow> abnormal + JointTrack" where
  "pad_rotation node track =
     (if rotationKeys track = [] then
        (case node of
           None \<Rightarrow> Inl NullDereference
         | Some n \<Rightarrow> bindA (CreateRotationBindPoseKey n)
                      (\<lambda>k. Inr (track\<lparr>rotationKeys := rotationKeys track @ [k]\<rparr>)))
      else Inr track)"

definition pad_scale :: "Node option \<Rightarrow> JointTrack \<Rightarrow> abnormal + JointTrack" where
  "pad_scale node track =
     (if scaleKeys track = [] then
        (case node of
           None \<Rightarrow> Inl NullDereference
         | Some n \<Rightarrow> bindA (CreateScaleBindPoseKey n)
                      (\<lambda>k. Inr (track\<lparr>scaleKeys := scaleKeys track @ [k]\<rparr>)))
      else Inr track)"

definition pad_track :: "Node option \<Rightarrow> JointTrack \<Rightarrow> abnormal + JointTrack" where
  "pad_track node track =
     bindA (pad_translation node track) (\<lambda>track1.
     bindA (pad_rotation node track1) (\<lambda>track2.
       pad_scale node track2))"

text \<open>The loop over the joints, \<open>is\<close> being the indices still to visit.\<close>

fun joints_loop ::
  "library \<Rightarrow> bool \<Rightarrow> Model \<Rightarrow> GltfImporter \<Rightarrow> Animation \<Rightarrow> real
     \<Rightarrow> (string \<times> AnimationChannel list) list \<Rightarrow> string list \<Rightarrow> nat list \<Rightarrow> RawAnimation
     \<Rightarrow> abnormal + outcome \<times> RawAnimation" where
  "joints_loop lib ndebug m st gltfAnimation samplingRate channelsPerJoint jointNames [] animation =
     Inr (Done, animation)"
| "joints_loop lib ndebug m st gltfAnimation samplingRate channelsPerJoint jointNames (i # is) animation =
     bindA (read_at jointNames i) (\<lambda>jointName.
     bindA (read_at (tracks animation) i) (\<lambda>track.
     bindA (sample_channels lib ndebug m gltfAnimation samplingRate
              (channels_at channelsPerJoint jointName) (duration animation) track)
       (\<lambda>(r, dur', track').
          let animation' = animation\<lparr>duration := dur', tracks := (tracks animation)[i := track']\<rparr> in
          case r of
            Failed e \<Rightarrow> Inr (Failed e, animation')
          | Done \<Rightarrow>
              (let node = FindNodeByName m st jointName in
               bindA (assert_that ndebug (node \<noteq> None)) (\<lambda>_.
               bindA (pad_track node track') (\<lambda>track''.
                 joints_loop lib ndebug m st gltfAnimation samplingRate channelsPerJoint jointNames is
                   (animation'\<lparr>tracks := (tracks animation')[i := track'']\<rparr>)))))))"

text \<open>
  \<^verbatim>\<open>Import(animationName, skeleton, samplingRate, animation)\<close>. Of the runtime skeleton
  the function reads \<^verbatim>\<open>num_joints()\<close> and \<^verbatim>\<open>joint_names()\<close>: \<open>jointNames\<close> is the
  list of names and its length the number of joints. \<open>animation\<close> is the object the
  caller passes; the result holds it as the call leaves it.
\<close>

definition Import_animation ::
  "library \<Rightarrow> bool \<Rightarrow> Model \<Rightarrow> GltfImporter \<Rightarrow> string \<Rightarrow> string list \<Rightarrow> real \<Rightarrow> RawAnimation
     \<Rightarrow> abnormal + outcome \<times> RawAnimation" where
  "Import_animation lib ndebug m st animationName jointNames samplingRate0 animation =
     (let samplingRate = (if samplingRate0 = 0 then 60 else samplingRate0) in
      case find (\<lambda>a. anim_name a = animationName) (animations m) of
        None \<Rightarrow> Inr (Failed AnimationNotFound, animation)
      | Some gltfAnimation \<Rightarrow>
          (let numJoints = length jointNames;
               animation1 = animation\<lparr>name := c_str (anim_name gltfAnimation), duration := 0,
                              tracks := resize_vec numJoints JointTrack0 (tracks animation)\<rparr>
           in
           bindA (group_channels m (channels gltfAnimation) []) (\<lambda>channelsPerJoint.
           bindA (joints_loop lib ndebug m st gltfAnimation samplingRate channelsPerJoint jointNames
                    [0 ..< numJoints] animation1) (\<lambda>(r, animation2).
             case r of
               Failed e \<Rightarrow> Inr (Failed e, animation2)
             | Done \<Rightarrow>
                 if \<not> Validate_animation lib animation2
                 then Inr (Failed AnimationValidationFailed, animation2)
                 else Inr (Done, animation2)))))"

subsection \<open>An instance of the library\<close>

text \<open>
  Modelled from the spec: the helpers of tinygltf, \<^verbatim>\<open>math::Normalize\<close>,
  \<^verbatim>\<open>RawAnimation::Validate\<close> and \<^verbatim>\<open>RawSkeleton::Validate\<close> are not part of the
  file. The instance \<open>gltf_ozz\<close> below is used to run the model on concrete inputs;
  the general theorems hold for every library, or name what they ask of it.
\<close>

text \<open>
  Modelled from the spec: the byte sizes of the glTF component types (5126 is a
  32-bit float) and the component counts of the glTF element types (65 is a scalar,
  3 and 4 are the 3- and 4-vectors).
\<close>

definition component_size :: "int \<Rightarrow> int" where
  "component_size c =
     (if c = 5120 \<or> c = 5121 then 1
      else if c = 5122 \<or> c = 5123 then 2
      else if c = 5124 \<or> c = 5125 \<or> c = 5126 then 4
      else if c = 5130 then 8
      else - 1)"

definition type_size :: "int \<Rightarrow> int" where
  "type_size t =
     (if t = 65 then 1
      else if t = 2 then 2
      else if t = 3 then 3
      else if t = 4 then 4
      else if t = 34 then 4
      else if t = 35 then 9
      else if t = 36 then 16
      else - 1)"

text \<open>
  Modelled from the spec: \<^verbatim>\<open>math::Normalize\<close> divides a quaternion by its length
  (``renormalized to unit quaternions'').
\<close>

fun normalize_quaternion :: "Quaternion \<Rightarrow> Quaternion" where
  "normalize_quaternion (Quaternion (Finite a) (Finite b) (Finite c) (Finite d)) =
     Quaternion_mul (Quaternion_of a b c d)
       (fdiv (Finite 1) (sqrt (a * a + b * b + c * c + d * d)))"
| "normalize_quaternion q = Quaternion NonFinite NonFinite NonFinite NonFinite"

text \<open>
  Modelled from the spec: \<^verbatim>\<open>RawAnimation::Validate\<close>. An animation is valid when
  ``keys within a sequence are time-ordered''; the instance reads this in the
  strictest way: the duration is positive and the keys of every sequence have finite
  times that lie in \<open>[0, duration]\<close> in strictly ascending order.
\<close>

fun ascending_from :: "real \<Rightarrow> real \<Rightarrow> 'v Key list \<Rightarrow> bool" where
  "ascending_from dur previous [] = True"
| "ascending_from dur previous (k # ks) =
     (case time k of
        Finite t \<Rightarrow> 0 \<le> t \<and> t \<le> dur \<and> previous < t \<and> ascending_from dur t ks
      | NonFinite \<Rightarrow> False)"

definition valid_track :: "real \<Rightarrow> JointTrack \<Rightarrow> bool" where
  "valid_track dur track =
     (ascending_from dur (- 1) (translationKeys track) \<and>
      ascending_from dur (- 1) (rotationKeys track) \<and>
      ascending_from dur (- 1) (scaleKeys track))"

definition valid_animation :: "RawAnimation \<Rightarrow> bool" where
  "valid_animation a = (0 < duration a \<and> list_all (valid_track (duration a)) (tracks a))"

text \<open>
  Modelled from the spec: \<^verbatim>\<open>RawSkeleton::Validate\<close>. A skeleton is valid when it has
  ``unique non-empty names''. A \<^typ>\<open>Joint\<close> is a finite tree, so the skeleton is
  acyclic by its type.
\<close>

definition valid_skeleton :: "RawSkeleton \<Rightarrow> bool" where
  "valid_skeleton skeleton =
     (distinct (skeleton_names skeleton) \<and> list_all (\<lambda>nm. nm \<noteq> []) (skeleton_names skeleton))"

definition gltf_ozz :: library where
  "gltf_ozz =
     \<lparr>GetComponentSizeInBytes = component_size,
      GetTypeSizeInBytes = type_size,
      TYPE_SCALAR = 65, TYPE_VEC3 = 3, TYPE_VEC4 = 4,
      Normalize = normalize_quaternion,
      Validate_animation = valid_animation,
      Validate_skeleton = valid_skeleton\<rparr>"

subsection \<open>Concrete inputs\<close>

text \<open>
  A STEP channel with two source samples: times 0 and 1, values \<open>(1, 2, 3)\<close> and
  \<open>(4, 5, 6)\<close>.
\<close>

definition step_model :: Model where
  "step_model =
     \<lparr>scenes = [], defaultScene = - 1, nodes = [], skins = [], animations = [],
      accessors =
        [\<lparr>componentType = 5126, acc_type = 65, count = 2, maxValues = [1], memory = [0, 1]\<rparr>,
         \<lparr>componentType = 5126, acc_type = 3, count = 2, maxValues = [],
          memory = [1, 2, 3, 4, 5, 6]\<rparr>]\<rparr>"

definition step_sampler :: AnimationSampler where
  "step_sampler = \<lparr>smp_input = 0, smp_output = 1, interpolation = ''STEP''\<rparr>"

text \<open>
  A CUBICSPLINE channel with two source samples, at times 0 and 2 (declared maximum
  2), with values \<open>(1, 1, 1)\<close> and \<open>(3, 3, 3)\<close> and zero tangents.
\<close>

definition spline_model :: Model where
  "spline_model =
     \<lparr>scenes = [], defaultScene = - 1, nodes = [], skins = [], animations = [],
      accessors =
        [\<lparr>componentType = 5126, acc_type = 65, count = 2, maxValues = [2], memory = [0, 2]\<rparr>,
         \<lparr>componentType = 5126, acc_type = 3, count = 6, maxValues = [],
          memory = [0, 0, 0, 1, 1, 1, 0, 0, 0, 0, 0, 0, 3, 3, 3, 0, 0, 0]\<rparr>]\<rparr>"

definition spline_sampler :: AnimationSampler where
  "spline_sampler = \<lparr>smp_input = 0, smp_output = 1, interpolation = ''CUBICSPLINE''\<rparr>"

text \<open>The same channel with its two source samples at times 1 and 2.\<close>

definition late_spline_model :: Model where
  "late_spline_model =
     \<lparr>scenes = [], defaultScene = - 1, nodes = [], skins = [], animations = [],
      accessors =
        [\<lparr>componentType = 5126, acc_type = 65, count = 2, maxValues = [2], memory = [1, 2]\<rparr>,
         \<lparr>componentType = 5126, acc_type = 3, count = 6, maxValues = [],
          memory = [0, 0, 0, 1, 1, 1, 0, 0, 0, 0, 0, 0, 3, 3, 3, 0, 0, 0]\<rparr>]\<rparr>"

text \<open>
  A model with one node, named \<open>a\<close>, which is the only joint of the skeleton, and
  five animations of its translation: \<open>walk\<close> is a LINEAR channel with two keys;
  \<open>short\<close> is the same channel with an output accessor of one element;
  \<open>overrun\<close> is the same channel with an input accessor of one timestamp, which is
  all that its buffer holds; \<open>odd\<close> names an interpolation that does not exist;
  \<open>stray\<close> has a second channel without a target node, whose input accessor
  declares the maximum time 5.
\<close>

definition walk_animation :: Animation where
  "walk_animation =
     \<lparr>anim_name = ''walk'',
      channels = [\<lparr>sampler = 0, target_node = 0, target_path = ''translation''\<rparr>],
      samplers = [\<lparr>smp_input = 0, smp_output = 1, interpolation = ''LINEAR''\<rparr>]\<rparr>"

definition short_animation :: Animation where
  "short_animation =
     \<lparr>anim_name = ''short'',
      channels = [\<lparr>sampler = 0, target_node = 0, target_path = ''translation''\<rparr>],
      samplers = [\<lparr>smp_input = 0, smp_output = 2, interpolation = ''LINEAR''\<rparr>]\<rparr>"

definition overrun_animation :: Animation where
  "overrun_animation =
     \<lparr>anim_name = ''overrun'',
      channels = [\<lparr>sampler = 0, target_node = 0, target_path = ''translation''\<rparr>],
      samplers = [\<lparr>smp_input = 4, smp_output = 1, interpolation = ''LINEAR''\<rparr>]\<rparr>"

definition odd_animation :: Animation where
  "odd_animation =
     \<lparr>anim_name = ''odd'',
      channels = [\<lparr>sampler = 0, target_node = 0, target_path = ''translation''\<rparr>],
      samplers = [\<lparr>smp_input = 0, smp_output = 1, interpolation = ''BEZIER''\<rparr>]\<rparr>"

definition stray_animation :: Animation where
  "stray_animation =
     \<lparr>anim_name = ''stray'',
      channels = [\<lparr>sampler = 0, target_node = 0, target_path = ''translation''\<rparr>,
                  \<lparr>sampler = 1, target_node = - 1, target_path = ''translation''\<rparr>],
      samplers = [\<lparr>smp_input = 0, smp_output = 1, interpolation = ''LINEAR''\<rparr>,
                  \<lparr>smp_input = 3, smp_output = 1, interpolation = ''LINEAR''\<rparr>]\<rparr>"

definition demo_model :: Model where
  "demo_model =
     \<lparr>scenes = [], defaultScene = - 1,
      nodes = [\<lparr>node_name = ''a'', node_children = [], matrix = [], translation = [],
                rotation = [], scale = []\<rparr>],
      skins = [],
      animations = [walk_animation, short_animation, odd_animation, stray_animation,
                    overrun_animation],
      accessors =
        [\<lparr>componentType = 5126, acc_type = 65, count = 2, maxValues = [1], memory = [0, 1]\<rparr>,
         \<lparr>componentType = 5126, acc_type = 3, count = 2, maxValues = [],
          memory = [1, 2, 3, 4, 5, 6]\<rparr>,
         \<lparr>componentType = 5126, acc_type = 3, count = 1, maxValues = [], memory = [1, 2, 3]\<rparr>,
         \<lparr>componentType = 5126, acc_type = 65, count = 2, maxValues = [5], memory = [0, 5]\<rparr>,
         \<lparr>componentType = 5126, acc_type = 65, count = 1, maxValues = [1], memory = [0]\<rparr>]\<rparr>"

text \<open>The importer after the skeleton of that model was built.\<close>

definition demo_importer :: GltfImporter where
  "demo_importer = \<lparr>existingNames = [(''a'', 0)], m_nodeNames = [(0, ''a'')]\<rparr>"

text \<open>A fresh output animation, and what the import of \<open>walk\<close> makes of it.\<close>

definition empty_animation :: RawAnimation where
  "empty_animation = \<lparr>name = [], duration = 0, tracks = []\<rparr>"

definition linear_keys :: "Float3 Key list" where
  "linear_keys = [\<lparr>time = Finite 0, key_value = Float3_of 1 2 3\<rparr>,
                  \<lparr>time = Finite 1, key_value = Float3_of 4 5 6\<rparr>]"

definition bind_rotation_keys :: "Quaternion Key list" where
  "bind_rotation_keys = [\<lparr>time = Finite 0, key_value = Quaternion_of 0 0 0 1\<rparr>]"

definition bind_scale_keys :: "Float3 Key list" where
  "bind_scale_keys = [\<lparr>time = Finite 0, key_value = Float3_of 1 1 1\<rparr>]"

definition walk_result :: RawAnimation where
  "walk_result =
     \<lparr>name = ''walk'', duration = 1,
      tracks = [\<lparr>translationKeys = linear_keys, rotationKeys = bind_rotation_keys,
                 scaleKeys = bind_scale_keys\<rparr>]\<rparr>"





text \<open>
  Three models for the skeleton build, each with one scene, one skin and nodes
  without explicit transforms. In \<open>leg_model\<close> the node \<open>hip\<close> has the child \<open>knee\<close>.
  In \<open>twin_model\<close> a node \<open>a\<close> has a child that is also named \<open>a\<close>, and the animation
  \<open>nod\<close> moves the child. In \<open>clash_model\<close> the node \<open>a\<close> (index 0) has the children
  \<open>a_2\<close> (index 1) and \<open>a\<close> (index 2).
\<close>

definition plain_node :: "string \<Rightarrow> int list \<Rightarrow> Node" where
  "plain_node nm cs = \<lparr>node_name = nm, node_children = cs, matrix = [], translation = [],
                        rotation = [], scale = []\<rparr>"

definition leg_model :: Model where
  "leg_model =
     \<lparr>scenes = [\<lparr>scene_name = ''scene'', scene_nodes = [0]\<rparr>], defaultScene = - 1,
      nodes = [plain_node ''hip'' [1], plain_node ''knee'' []],
      skins = [\<lparr>joints = [0, 1]\<rparr>],
      animations = [], accessors = []\<rparr>"

definition twin_model :: Model where
  "twin_model =
     \<lparr>scenes = [\<lparr>scene_name = ''scene'', scene_nodes = [0]\<rparr>], defaultScene = - 1,
      nodes = [plain_node ''a'' [1], plain_node ''a'' []],
      skins = [\<lparr>joints = [0, 1]\<rparr>],
      animations =
        [\<lparr>anim_name = ''nod'',
          channels = [\<lparr>sampler = 0, target_node = 1, target_path = ''translation''\<rparr>],
          samplers = [\<lparr>smp_input = 0, smp_output = 1, interpolation = ''LINEAR''\<rparr>]\<rparr>],
      accessors =
        [\<lparr>componentType = 5126, acc_type = 65, count = 2, maxValues = [1], memory = [0, 1]\<rparr>,
         \<lparr>componentType = 5126, acc_type = 3, count = 2, maxValues = [],
          memory = [1, 2, 3, 4, 5, 6]\<rparr>]\<rparr>"

definition clash_model :: Model where
  "clash_model =
     \<lparr>scenes = [\<lparr>scene_name = ''scene'', scene_nodes = [0]\<rparr>], defaultScene = - 1,
      nodes = [plain_node ''a'' [1, 2], plain_node ''a_2'' [], plain_node ''a'' []],
      skins = [\<lparr>joints = [0, 1, 2]\<rparr>],
      animations = [], accessors = []\<rparr>"

text \<open>An importer that has built nothing yet, and a skeleton without joints.\<close>

definition fresh_importer :: GltfImporter where
  "fresh_importer = \<lparr>existingNames = [], m_nodeNames = []\<rparr>"

definition fresh_skeleton :: RawSkeleton where
  "fresh_skeleton = \<lparr>roots = []\<rparr>"

definition bind_transform :: Transform where
  "bind_transform = Transform (Float3_of 0 0 0) (Quaternion_of 0 0 0 1) (Float3_of 1 1 1)"

text \<open>What the builds below produce.\<close>

definition leg_skeleton :: RawSkeleton where
  "leg_skeleton = \<lparr>roots = [Joint ''hip'' bind_transform [Joint ''knee'' bind_transform []]]\<rparr>"

definition leg_importer :: GltfImporter where
  "leg_importer = \<lparr>existingNames = [(''hip'', 0), (''knee'', 1)],
                    m_nodeNames = [(0, ''hip''), (1, ''knee'')]\<rparr>"

definition leg_skeleton2 :: RawSkeleton where
  "leg_skeleton2 = \<lparr>roots = [Joint ''hip_0'' bind_transform [Joint ''knee_1'' bind_transform []]]\<rparr>"

definition leg_importer2 :: GltfImporter where
  "leg_importer2 =
     \<lparr>existingNames = [(''hip'', 0), (''knee'', 1), (''hip_0'', 0), (''knee_1'', 1)],
      m_nodeNames = [(0, ''hip''), (1, ''knee'')]\<rparr>"

definition twin_skeleton :: RawSkeleton where
  "twin_skeleton = \<lparr>roots = [Joint ''a'' bind_transform [Joint ''a_1'' bind_transform []]]\<rparr>"

definition twin_importer :: GltfImporter where
  "twin_importer = \<lparr>existingNames = [(''a'', 0), (''a_1'', 1)],
                     m_nodeNames = [(0, ''a''), (1, ''a_1'')]\<rparr>"

definition clash_skeleton :: RawSkeleton where
  "clash_skeleton =
     \<lparr>roots = [Joint ''a'' bind_transform
                 [Joint ''a_2'' bind_transform [], Joint ''a_2'' bind_transform []]]\<rparr>"

definition clash_importer :: GltfImporter where
  "clash_importer =
     \<lparr>existingNames = [(''a'', 0), (''a_2'', 1)],
      m_nodeNames = [(0, ''a''), (1, ''a_2''), (2, ''a_2'')]\<rparr>"

text \<open>
  A model whose only node is named \<open>a\<close>, NUL, \<open>b\<close>, with what two builds of its
  skeleton produce; and a model whose only node has a name that starts with NUL.
\<close>

definition nul_model :: Model where
  "nul_model =
     \<lparr>scenes = [\<lparr>scene_name = ''scene'', scene_nodes = [0]\<rparr>], defaultScene = - 1,
      nodes = [plain_node [CHR ''a'', CHR 0x00, CHR ''b''] []],
      skins = [\<lparr>joints = [0]\<rparr>],
      animations = [], accessors = []\<rparr>"

definition nul_skeleton :: RawSkeleton where
  "nul_skeleton = \<lparr>roots = [Joint ''a'' bind_transform []]\<rparr>"

definition nul_importer :: GltfImporter where
  "nul_importer = \<lparr>existingNames = [([CHR ''a'', CHR 0x00, CHR ''b''], 0)],
                    m_nodeNames = [(0, [CHR ''a'', CHR 0x00, CHR ''b''])]\<rparr>"

definition nul_importer2 :: GltfImporter where
  "nul_importer2 =
     \<lparr>existingNames = [([CHR ''a'', CHR 0x00, CHR ''b''], 0),
                       ([CHR ''a'', CHR 0x00, CHR ''b'', CHR ''_'', CHR ''0''], 0)],
      m_nodeNames = [(0, [CHR ''a'', CHR 0x00, CHR ''b''])]\<rparr>"

definition hidden_model :: Model where
  "hidden_model =
     \<lparr>scenes = [\<lparr>scene_name = ''scene'', scene_nodes = [0]\<rparr>], defaultScene = - 1,
      nodes = [plain_node [CHR 0x00, CHR ''x''] []],
      skins = [\<lparr>joints = [0]\<rparr>],
      animations = [], accessors = []\<rparr>"

text \<open>What the sampling of the CUBICSPLINE channel above gives at 2 Hz.\<close>

definition spline_keys :: "Float3 Key list" where
  "spline_keys =
     [\<lparr>time = Finite 0, key_value = Float3_of 1 1 1\<rparr>,
      \<lparr>time = Finite (1 / 2), key_value = Float3_of (21 / 16) (21 / 16) (21 / 16)\<rparr>,
      \<lparr>time = Finite 1, key_value = Float3_of 2 2 2\<rparr>,
      \<lparr>time = Finite (3 / 2), key_value = Float3_of (43 / 16) (43 / 16) (43 / 16)\<rparr>,
      \<lparr>time = Finite 2, key_value = Float3_of 3 3 3\<rparr>]"

subsection \<open>Vocabulary of the properties\<close>








text \<open>
  The name \<^verbatim>\<open>CreateJointName\<close> starts from: the node's name, or
  \<open>gltf_node_<index>\<close> for a node without one.
\<close>

definition base_name :: "Model \<Rightarrow> int \<Rightarrow> string" where
  "base_name m nodeIndex =
     (if length (node_name (nodes m ! nat nodeIndex)) = 0 then ''gltf_node_'' @ show_int nodeIndex
      else node_name (nodes m ! nat nodeIndex))"

text \<open>
  The name that \<^verbatim>\<open>CreateJointName\<close> returns for a node whose name is already
  registered.
\<close>

definition suffixed_name :: "Model \<Rightarrow> int \<Rightarrow> string" where
  "suffixed_name m nodeIndex = base_name m nodeIndex @ ''_'' @ show_int nodeIndex"

text \<open>
  The nodes that a build of the skeleton makes joints of, in the order in which it
  names them: each root of \<^verbatim>\<open>rootJoints\<close> in turn, and under each node its children in
  turn, every child followed by its own descendants. \<open>fuel\<close> is that of the build.
\<close>

fun visit_children :: "nat \<Rightarrow> Model \<Rightarrow> int list \<Rightarrow> int list" where
  "visit_children 0 m cs = []"
| "visit_children (Suc fuel) m [] = []"
| "visit_children (Suc fuel) m (childIndex # cs) =
     childIndex # visit_children fuel m (node_children (nodes m ! nat childIndex))
       @ visit_children (Suc fuel) m cs"

definition visit_roots :: "nat \<Rightarrow> Model \<Rightarrow> int list \<Rightarrow> int list" where
  "visit_roots fuel m rootJoints =
     concat (map (\<lambda>rootJointIndex.
                    rootJointIndex #
                    visit_children fuel m (node_children (nodes m ! nat rootJointIndex)))
               rootJoints)"

definition visited_nodes :: "nat \<Rightarrow> Model \<Rightarrow> int list" where
  "visited_nodes fuel m =
     (case read_int (scenes m) (if defaultScene m = - 1 then 0 else defaultScene m) of
        Inl _ \<Rightarrow> []
      | Inr scene \<Rightarrow>
          (case GetSkinsForScene fuel m scene of
             Inl _ \<Rightarrow> []
           | Inr sks \<Rightarrow>
               (case root_indices fuel m sks [] of
                  Inl _ \<Rightarrow> []
                | Inr rootJoints \<Rightarrow> visit_roots fuel m rootJoints)))"

text \<open>A model in which no node name holds the character NUL.\<close>

definition nul_free :: "Model \<Rightarrow> bool" where
  "nul_free m = list_all (\<lambda>node. CHR 0x00 \<notin> set (node_name node)) (nodes m)"

section \<open>Properties\<close>

text \<open>
  The equations of the loops are unfolded where a proof asks for them, and when the
  model is run on a concrete input.
\<close>

declare advance.simps [simp del] spline_loop.simps [simp del]
  step_loop.simps [simp del] linear_loop.simps [simp del]

lemmas loop_simps = advance.simps spline_loop.simps step_loop.simps linear_loop.simps

subsection \<open>Results of calls\<close>

lemma bindA_Inr [simp]: "bindA (Inr v) f = f v"
  by (simp add: bindA_def)

lemma bindA_Inl [simp]: "bindA (Inl e) f = Inl e"
  by (simp add: bindA_def)

lemma bindA_eq_Inr: "bindA r f = Inr y \<longleftrightarrow> (\<exists>v. r = Inr v \<and> f v = Inr y)"
  by (cases r) simp_all

lemma read_int_Inr: "read_int xs i = Inr x \<longleftrightarrow> (0 \<le> i \<and> nat i < length xs \<and> x = xs ! nat i)"
  by (auto simp: read_int_def)



subsection \<open>Running the model on the concrete inputs\<close>

lemma replicate_numeral_Cons: "replicate (numeral k) x = x # replicate (pred_numeral k) x"
  by (simp add: numeral_eq_Suc)

lemmas run_defs =
  loop_simps replicate_numeral_Cons bindA_def assert_that_def read_at_def read_int_def resize_vec_def
  BufferView_def BufferView_float_def BufferView_Float3_def BufferView_Quaternion_def
  gltf_ozz_def component_size_def type_size_def float_to_int_def c_str_def
  sample_by_path_def Float3_Key0_def Quaternion_Key0_def JointTrack0_def

lemmas animation_defs =
  demo_model_def walk_animation_def short_animation_def odd_animation_def stray_animation_def
  overrun_animation_def

lemmas import_defs =
  Import_animation_def demo_model_def demo_importer_def empty_animation_def
  walk_animation_def short_animation_def odd_animation_def stray_animation_def
  overrun_animation_def SampleAnimationChannel_def SampleLinearChannel_def channels_at_def FindNodeByName_def
  pad_track_def pad_translation_def pad_rotation_def pad_scale_def
  CreateTranslationBindPoseKey_def CreateRotationBindPoseKey_def CreateScaleBindPoseKey_def
  Float3_zero_def Float3_one_def Quaternion_identity_def
  valid_animation_def valid_track_def linear_keys_def bind_rotation_keys_def bind_scale_keys_def

lemma run_walk:
  "Import_animation gltf_ozz ndebug demo_model demo_importer ''walk'' [''a''] 0 empty_animation =
     Inr (Done, walk_result)"
  by (simp add: import_defs run_defs walk_result_def)

lemmas skeleton_defs =
  Import_skeleton_def GetSkinsForScene_def FindSkinRootJointIndex_def CreateJointName_def
  CreateNodeTransform_def set_insert_def map_insert_def show_int_def plain_node_def
  fresh_importer_def fresh_skeleton_def bind_transform_def c_str_def
  Float3_zero_def Float3_one_def Quaternion_identity_def
  Let_def read_int_def read_at_def

lemma build_twin:
  "Import_skeleton gltf_ozz 5 twin_model fresh_importer fresh_skeleton =
     Inr (Done, twin_skeleton, twin_importer)"
  by (simp add: skeleton_defs twin_model_def twin_importer_def twin_skeleton_def numeral_eq_Suc
      gltf_ozz_def valid_skeleton_def skeleton_names_def)

lemma build_leg_once:
  "Import_skeleton gltf_ozz 5 leg_model fresh_importer \<lparr>roots = []\<rparr> =
     Inr (Done, leg_skeleton, leg_importer)"
  by (simp add: skeleton_defs leg_model_def leg_importer_def leg_skeleton_def numeral_eq_Suc
      gltf_ozz_def valid_skeleton_def skeleton_names_def)

lemma build_leg_twice:
  "Import_skeleton gltf_ozz 5 leg_model leg_importer \<lparr>roots = []\<rparr> =
     Inr (Done, leg_skeleton2, leg_importer2)"
  by (simp add: skeleton_defs leg_model_def leg_importer_def leg_skeleton2_def
      leg_importer2_def numeral_eq_Suc gltf_ozz_def valid_skeleton_def skeleton_names_def)




subsection \<open>STEP channels\<close>

text \<open>
  C1. The claim: a STEP channel with \<open>n \<ge> 2\<close> source samples yields exactly
  \<open>2n - 1\<close> keys, the last source sample giving one key. The code resizes the key
  vector to \<open>2n\<close> and writes \<open>2n - 1\<close> of them: on two source samples it returns four
  keys, and the fourth is the value-initialised key that no source sample wrote.
\<close>

theorem step_channel_leaves_a_trailing_key:
  "SampleAnimationChannel gltf_ozz ndebug step_model step_sampler ''translation'' 0 JointTrack0 60 =
     Inr (Done, 1,
          \<lparr>translationKeys =
             [\<lparr>time = Finite 0, key_value = Float3_of 1 2 3\<rparr>,
              \<lparr>time = Finite (1 - eps), key_value = Float3_of 1 2 3\<rparr>,
              \<lparr>time = Finite 1, key_value = Float3_of 4 5 6\<rparr>,
              Float3_Key0],
           rotationKeys = [], scaleKeys = []\<rparr>)"
  by (simp add: SampleAnimationChannel_def SampleStepChannel_def step_model_def step_sampler_def
      run_defs numeral_2_eq_2)

subsection \<open>CUBICSPLINE channels\<close>

text \<open>
  C2. The claim: the cursor never exceeds the index of the second-to-last source
  sample, so the reads at \<open>cursor + 1\<close> stay inside the source arrays. The loop is
  bounded by \<open>numKeyframes - 1\<close>, the index of the last sample: with source times 1
  and 2 and destination time 0 the cursor stops at index 1, the read of
  \<open>timestamps[2]\<close> is outside the two timestamps, and the sampling does not return.
\<close>

theorem spline_cursor_reaches_last_sample:
  "advance [1, 2] (Finite 0) (size_t_pred (6 div 3)) 0 = Inr 1 \<and>
   read_at [1, 2 :: real] (1 + 1) = Inl OutOfBounds \<and>
   SampleAnimationChannel gltf_ozz ndebug late_spline_model spline_sampler ''translation'' 0
     JointTrack0 1 = Inl OutOfBounds"
  by (simp add: SampleAnimationChannel_def SampleCubicSplineChannel_def spline_key_def
      size_t_pred_def late_spline_model_def spline_sampler_def run_defs)

text \<open>
  C7. The claim: a CUBICSPLINE channel yields \<open>\<lfloor>duration * samplingRate\<rfloor> + 1\<close> keys
  spaced at \<open>1 / samplingRate\<close>. The sampling rate passes through an \<^verbatim>\<open>int\<close>
  parameter on its way to the sampler: at 2.5 Hz and a duration of 2 s the claim
  gives 6 keys spaced at 0.4 s, the code returns 5 keys spaced at 0.5 s.
\<close>

theorem spline_rate_is_truncated:
  "SampleAnimationChannel gltf_ozz ndebug spline_model spline_sampler ''translation'' 0
     JointTrack0 (5 / 2) =
     Inr (Done, 2,
          \<lparr>translationKeys =
             [\<lparr>time = Finite 0, key_value = Float3_of 1 1 1\<rparr>,
              \<lparr>time = Finite (1 / 2), key_value = Float3_of (21 / 16) (21 / 16) (21 / 16)\<rparr>,
              \<lparr>time = Finite 1, key_value = Float3_of 2 2 2\<rparr>,
              \<lparr>time = Finite (3 / 2), key_value = Float3_of (43 / 16) (43 / 16) (43 / 16)\<rparr>,
              \<lparr>time = Finite 2, key_value = Float3_of 3 3 3\<rparr>],
           rotationKeys = [], scaleKeys = []\<rparr>)"
  by (simp add: SampleAnimationChannel_def SampleCubicSplineChannel_def spline_key_def
      SampleHermiteSpline_def size_t_pred_def spline_model_def spline_sampler_def run_defs)

subsection \<open>The duration of an imported animation\<close>
















subsection \<open>What a failed import leaves behind\<close>

text \<open>
  C5. The claim: a failed import leaves the caller's animation without any partially
  written name, duration or tracks. The import writes into the caller's object as it
  goes: when the channel of \<open>odd\<close> is refused for its interpolation, the name, the
  duration and the resized tracks are already there.
\<close>

theorem failed_import_leaves_partial_output:
  "Import_animation gltf_ozz False demo_model demo_importer ''odd'' [''a''] 0 empty_animation =
     Inr (Failed UnknownInterpolation, \<lparr>name = ''odd'', duration = 1, tracks = [JointTrack0]\<rparr>) \<and>
   \<lparr>name = ''odd'', duration = 1, tracks = [JointTrack0]\<rparr> \<noteq> empty_animation"
  by (simp add: import_defs run_defs)

text \<open>
  C5, as the code has it: when no animation of the model has the requested name, the
  import returns false with the not-found diagnostic and the caller's animation is
  what it was.
\<close>

theorem unknown_animation_leaves_the_output_untouched:
  assumes "animationName \<notin> set (map anim_name (animations m))"
  shows "Import_animation lib ndebug m st animationName jointNames rate animation =
           Inr (Failed AnimationNotFound, animation)"
proof -
  from assms have "find (\<lambda>g. anim_name g = animationName) (animations m) = None"
    by (auto simp: find_None_iff)
  then show ?thesis
    by (simp add: Import_animation_def)
qed

theorem unknown_animation_witness:
  "Import_animation gltf_ozz False demo_model demo_importer ''run'' [''a''] 0 empty_animation =
     Inr (Failed AnimationNotFound, empty_animation)"
proof -
  have "''run'' \<notin> set (map anim_name (animations demo_model))"
    by (simp add: animation_defs)
  then show ?thesis
    by (rule unknown_animation_leaves_the_output_untouched)
qed

subsection \<open>Padding with the bind pose\<close>















subsection \<open>Accessor counts that do not match\<close>

text \<open>
  C9. The claim: a channel whose accessor counts do not fit its interpolation makes
  the import fail with an error signalled to the caller. The code states the counts
  by \<^verbatim>\<open>assert\<close> only, where its other checks of the data log an error and return
  false. The LINEAR channel of \<open>short\<close> has two timestamps and one value: compiled
  without assertions the import succeeds with one key, compiled with assertions it
  stops at the assertion. The LINEAR channel of \<open>overrun\<close> has one timestamp and two
  values: compiled without assertions the import reads a second timestamp beyond the
  buffer. In neither build does a call return false.
\<close>

theorem mismatched_counts_are_not_reported:
  "count (accessors demo_model ! 0) = 2 \<and> count (accessors demo_model ! 2) = 1 \<and>
   Import_animation gltf_ozz True demo_model demo_importer ''short'' [''a''] 0 empty_animation =
     Inr (Done, \<lparr>name = ''short'', duration = 1,
                   tracks = [\<lparr>translationKeys = [\<lparr>time = Finite 0, key_value = Float3_of 1 2 3\<rparr>],
                              rotationKeys = bind_rotation_keys, scaleKeys = bind_scale_keys\<rparr>]\<rparr>) \<and>
   Import_animation gltf_ozz False demo_model demo_importer ''short'' [''a''] 0 empty_animation =
     Inl AssertionFailed \<and>
   count (accessors demo_model ! 4) = 1 \<and> count (accessors demo_model ! 1) = 2 \<and>
   Import_animation gltf_ozz True demo_model demo_importer ''overrun'' [''a''] 0 empty_animation =
     Inl OutOfBounds \<and>
   Import_animation gltf_ozz False demo_model demo_importer ''overrun'' [''a''] 0 empty_animation =
     Inl AssertionFailed"
  by (simp add: import_defs run_defs)

subsection \<open>The names of the joints\<close>

lemma keys_map_insert: "fst ` set (map_insert k v kvs) = insert k (fst ` set kvs)"
proof (cases "map_of kvs k")
  case None
  then show ?thesis by (simp add: map_insert_def)
next
  case (Some x)
  then have "k \<in> fst ` set kvs"
    by (metis map_of_eq_None_iff option.distinct(1))
  with Some show ?thesis by (auto simp: map_insert_def)
qed

lemma CreateJointName_Inr:
  assumes "CreateJointName m nodeIndex st = Inr (nm, st')"
  shows "nm = (if base_name m nodeIndex \<in> fst ` set (existingNames st)
               then suffixed_name m nodeIndex
               else base_name m nodeIndex) \<and>
         fst ` set (existingNames st') = insert nm (fst ` set (existingNames st)) \<and>
         0 \<le> nodeIndex \<and> nat nodeIndex < length (nodes m)"
proof -
  define name0 where "name0 = base_name m nodeIndex"
  from assms have
    nm: "nm = (case map_of (existingNames st) name0 of
                 None \<Rightarrow> name0 | Some _ \<Rightarrow> name0 @ ''_'' @ show_int nodeIndex)" and
    st': "existingNames st' = map_insert nm nodeIndex (existingNames st)" and
    rng: "0 \<le> nodeIndex \<and> nat nodeIndex < length (nodes m)"
    unfolding name0_def base_name_def CreateJointName_def
    by (auto simp: bindA_eq_Inr read_int_Inr Let_def)
  have "map_of (existingNames st) name0 = None \<longleftrightarrow> name0 \<notin> fst ` set (existingNames st)"
    by (simp add: map_of_eq_None_iff)
  with nm have "nm = (if name0 \<in> fst ` set (existingNames st)
               then name0 @ ''_'' @ show_int nodeIndex else name0)"
    by (cases "map_of (existingNames st) name0") auto
  with st' rng show ?thesis
    by (simp add: keys_map_insert name0_def suffixed_name_def)
qed

lemma CreateJointName_keeps_base:
  assumes "CreateJointName m nodeIndex st = Inr (nm, st')"
  shows "fst ` set (existingNames st) \<subseteq> fst ` set (existingNames st') \<and>
         base_name m nodeIndex \<in> fst ` set (existingNames st')"
  using CreateJointName_Inr [OF assms] by (auto split: if_splits)

lemma ImportChildren_Cons_Done:
  assumes "ImportChildren (Suc fuel) m (childIndex # cs) st = Inr (Done, js, st')"
  shows "\<exists>nm st1 transform kids st2 rest.
           CreateJointName m childIndex st = Inr (nm, st1) \<and>
           ImportChildren fuel m (node_children (nodes m ! nat childIndex)) st1
             = Inr (Done, kids, st2) \<and>
           ImportChildren (Suc fuel) m cs st2 = Inr (Done, rest, st') \<and>
           js = Joint (c_str nm) transform kids # rest"
proof -
  from assms obtain childNode nm st1 tr where
    rd: "read_int (nodes m) childIndex = Inr childNode" and
    cj: "CreateJointName m childIndex st = Inr (nm, st1)" and
    rest: "(case tr of
         None \<Rightarrow> Inr (Failed MatrixNotEmpty, [], st1)
       | Some transform \<Rightarrow>
           bindA (ImportChildren fuel m (node_children childNode) st1) (\<lambda>(r, kids, st2).
             case r of
               Failed e \<Rightarrow> Inr (Failed e, [], st2)
             | Done \<Rightarrow>
                 bindA (ImportChildren (Suc fuel) m cs st2) (\<lambda>(r', rest, st3).
                   Inr (r', Joint (c_str nm) transform kids # rest, st3)))) = Inr (Done, js, st')"
    by (auto simp: bindA_eq_Inr)
  from rd have cn: "childNode = nodes m ! nat childIndex"
    by (simp add: read_int_Inr)
  from rest obtain transform where tr: "tr = Some transform"
    by (cases tr) auto
  with rest obtain r kids st2 where
    kids: "ImportChildren fuel m (node_children childNode) st1 = Inr (r, kids, st2)" and
    rest2: "(case r of
               Failed e \<Rightarrow> Inr (Failed e, [], st2)
             | Done \<Rightarrow>
                 bindA (ImportChildren (Suc fuel) m cs st2) (\<lambda>(r', rest, st3).
                   Inr (r', Joint (c_str nm) transform kids # rest, st3))) = Inr (Done, js, st')"
    by (auto simp: bindA_eq_Inr)
  from rest2 have r: "r = Done"
    by (cases r) auto
  with rest2 obtain rest' where
    "ImportChildren (Suc fuel) m cs st2 = Inr (Done, rest', st')"
    "js = Joint (c_str nm) transform kids # rest'"
    by (auto simp: bindA_eq_Inr)
  with cj kids r cn show ?thesis
    by blast
qed

lemma ImportChildren_keys:
  "ImportChildren fuel m cs st = Inr (Done, js, st') \<Longrightarrow>
   fst ` set (existingNames st) \<subseteq> fst ` set (existingNames st')"
proof (induction fuel m cs st arbitrary: js st' rule: ImportChildren.induct)
  case (1 m cs st)
  then show ?case by simp
next
  case (2 fuel m st)
  then show ?case by simp
next
  case (3 fuel m childIndex cs st)
  from ImportChildren_Cons_Done [OF "3.prems"] obtain nm st1 kids st2 rest where
    cj: "CreateJointName m childIndex st = Inr (nm, st1)" and
    kids: "ImportChildren fuel m (node_children (nodes m ! nat childIndex)) st1
             = Inr (Done, kids, st2)" and
    sib: "ImportChildren (Suc fuel) m cs st2 = Inr (Done, rest, st')"
    by blast
  from CreateJointName_keeps_base [OF cj] "3.IH"(1) [OF kids] "3.IH"(2) [OF refl sib]
  show ?case by blast
qed

text \<open>
  After a build, the registry holds the name of every node it has visited; the
  visited nodes are nodes of the model.
\<close>

lemma ImportChildren_visited:
  "ImportChildren fuel m cs st = Inr (Done, js, st') \<Longrightarrow> k \<in> set (visit_children fuel m cs) \<Longrightarrow>
   0 \<le> k \<and> nat k < length (nodes m) \<and> base_name m k \<in> fst ` set (existingNames st')"
proof (induction fuel m cs st arbitrary: js st' rule: ImportChildren.induct)
  case (1 m cs st)
  then show ?case by simp
next
  case (2 fuel m st)
  then show ?case by simp
next
  case (3 fuel m childIndex cs st)
  from ImportChildren_Cons_Done [OF "3.prems"(1)] obtain nm st1 kids st2 rest where
    cj: "CreateJointName m childIndex st = Inr (nm, st1)" and
    kids: "ImportChildren fuel m (node_children (nodes m ! nat childIndex)) st1
             = Inr (Done, kids, st2)" and
    sib: "ImportChildren (Suc fuel) m cs st2 = Inr (Done, rest, st')"
    by blast
  note k0 = CreateJointName_keeps_base [OF cj]
    and rng = CreateJointName_Inr [OF cj, THEN conjunct2, THEN conjunct2]
    and k1 = ImportChildren_keys [OF kids] and k2 = ImportChildren_keys [OF sib]
  from "3.prems"(2) consider
      (here) "k = childIndex"
    | (below) "k \<in> set (visit_children fuel m (node_children (nodes m ! nat childIndex)))"
    | (after) "k \<in> set (visit_children (Suc fuel) m cs)"
    by auto
  then show ?case
  proof cases
    case here
    with k0 k1 k2 rng show ?thesis by blast
  next
    case below
    from "3.IH"(1) [OF kids below] k2 show ?thesis by blast
  next
    case after
    from "3.IH"(2) [OF refl sib after] show ?thesis .
  qed
qed

text \<open>
  A build by an importer whose registry holds the name of every node to visit: each
  joint gets its node's name with the suffix, cut at the first NUL.
\<close>

lemma ImportChildren_suffixes:
  "ImportChildren fuel m cs st = Inr (Done, js, st') \<Longrightarrow>
   (\<And>k. k \<in> set (visit_children fuel m cs) \<Longrightarrow> base_name m k \<in> fst ` set (existingNames st)) \<Longrightarrow>
   concat (map joint_names js) = map (\<lambda>k. c_str (suffixed_name m k)) (visit_children fuel m cs)"
proof (induction fuel m cs st arbitrary: js st' rule: ImportChildren.induct)
  case (1 m cs st)
  then show ?case by simp
next
  case (2 fuel m st)
  then show ?case by simp
next
  case (3 fuel m childIndex cs st)
  from ImportChildren_Cons_Done [OF "3.prems"(1)] obtain nm st1 transform kids st2 rest where
    cj: "CreateJointName m childIndex st = Inr (nm, st1)" and
    kids: "ImportChildren fuel m (node_children (nodes m ! nat childIndex)) st1
             = Inr (Done, kids, st2)" and
    sib: "ImportChildren (Suc fuel) m cs st2 = Inr (Done, rest, st')" and
    js: "js = Joint (c_str nm) transform kids # rest"
    by blast
  note k0 = CreateJointName_keeps_base [OF cj] and k1 = ImportChildren_keys [OF kids]
  have "base_name m childIndex \<in> fst ` set (existingNames st)"
    by (rule "3.prems"(2)) simp
  with CreateJointName_Inr [OF cj] have nm: "nm = suffixed_name m childIndex"
    by simp
  have below: "concat (map joint_names kids) =
      map (\<lambda>k. c_str (suffixed_name m k))
        (visit_children fuel m (node_children (nodes m ! nat childIndex)))"
  proof (rule "3.IH"(1) [OF kids])
    fix k
    assume "k \<in> set (visit_children fuel m (node_children (nodes m ! nat childIndex)))"
    then have "base_name m k \<in> fst ` set (existingNames st)"
      by (intro "3.prems"(2)) simp
    with k0 show "base_name m k \<in> fst ` set (existingNames st1)" by blast
  qed
  have after: "concat (map joint_names rest) =
      map (\<lambda>k. c_str (suffixed_name m k)) (visit_children (Suc fuel) m cs)"
  proof (rule "3.IH"(2) [OF refl sib])
    fix k
    assume "k \<in> set (visit_children (Suc fuel) m cs)"
    then have "base_name m k \<in> fst ` set (existingNames st)"
      by (intro "3.prems"(2)) simp
    with k0 k1 show "base_name m k \<in> fst ` set (existingNames st2)" by blast
  qed
  from js nm below after show ?case
    by simp
qed

lemma import_roots_Cons_Done:
  assumes "import_roots fuel m (rootJointIndex # rs) st skeleton = Inr (Done, skeleton', st')"
  shows "\<exists>nm st1 transform kids st2.
           CreateJointName m rootJointIndex st = Inr (nm, st1) \<and>
           ImportChildren fuel m (node_children (nodes m ! nat rootJointIndex)) st1
             = Inr (Done, kids, st2) \<and>
           import_roots fuel m rs st2
             (skeleton\<lparr>roots := roots skeleton @ [Joint (c_str nm) transform kids]\<rparr>)
             = Inr (Done, skeleton', st')"
proof -
  from assms obtain rootBone nm st1 tr where
    rd: "read_int (nodes m) rootJointIndex = Inr rootBone" and
    cj: "CreateJointName m rootJointIndex st = Inr (nm, st1)" and
    rest: "(case tr of
         None \<Rightarrow> Inr (Failed MatrixNotEmpty, skeleton, st1)
       | Some transform \<Rightarrow>
           bindA (ImportChildren fuel m (node_children rootBone) st1) (\<lambda>(r, kids, st2).
             case r of
               Failed e \<Rightarrow> Inr (Failed e, skeleton, st2)
             | Done \<Rightarrow>
                 import_roots fuel m rs st2
                   (skeleton\<lparr>roots := roots skeleton @ [Joint (c_str nm) transform kids]\<rparr>)))
        = Inr (Done, skeleton', st')"
    by (auto simp: bindA_eq_Inr)
  from rd have rb: "rootBone = nodes m ! nat rootJointIndex"
    by (simp add: read_int_Inr)
  from rest obtain transform where tr: "tr = Some transform"
    by (cases tr) auto
  with rest obtain r kids st2 where
    kids: "ImportChildren fuel m (node_children rootBone) st1 = Inr (r, kids, st2)" and
    rest2: "(case r of
               Failed e \<Rightarrow> Inr (Failed e, skeleton, st2)
             | Done \<Rightarrow>
                 import_roots fuel m rs st2
                   (skeleton\<lparr>roots := roots skeleton @ [Joint (c_str nm) transform kids]\<rparr>))
        = Inr (Done, skeleton', st')"
    by (auto simp: bindA_eq_Inr)
  from rest2 have "r = Done"
    by (cases r) auto
  with cj kids rest2 rb show ?thesis
    by auto
qed

lemma import_roots_keys:
  "import_roots fuel m rs st skeleton = Inr (Done, skeleton', st') \<Longrightarrow>
   fst ` set (existingNames st) \<subseteq> fst ` set (existingNames st')"
proof (induction rs arbitrary: st skeleton)
  case Nil
  then show ?case by simp
next
  case (Cons r0 rs)
  from import_roots_Cons_Done [OF Cons.prems] obtain nm st1 transform kids st2 where
    cj: "CreateJointName m r0 st = Inr (nm, st1)" and
    kids: "ImportChildren fuel m (node_children (nodes m ! nat r0)) st1 = Inr (Done, kids, st2)" and
    tail: "import_roots fuel m rs st2
             (skeleton\<lparr>roots := roots skeleton @ [Joint (c_str nm) transform kids]\<rparr>)
       = Inr (Done, skeleton', st')"
    by blast
  from CreateJointName_keeps_base [OF cj] ImportChildren_keys [OF kids] Cons.IH [OF tail]
  show ?case by blast
qed

lemma import_roots_visited:
  "import_roots fuel m rs st skeleton = Inr (Done, skeleton', st') \<Longrightarrow>
   k \<in> set (visit_roots fuel m rs) \<Longrightarrow>
   0 \<le> k \<and> nat k < length (nodes m) \<and> base_name m k \<in> fst ` set (existingNames st')"
proof (induction rs arbitrary: st skeleton)
  case Nil
  then show ?case by (simp add: visit_roots_def)
next
  case (Cons r0 rs)
  from import_roots_Cons_Done [OF Cons.prems(1)] obtain nm st1 transform kids st2 where
    cj: "CreateJointName m r0 st = Inr (nm, st1)" and
    kids: "ImportChildren fuel m (node_children (nodes m ! nat r0)) st1 = Inr (Done, kids, st2)" and
    tail: "import_roots fuel m rs st2
             (skeleton\<lparr>roots := roots skeleton @ [Joint (c_str nm) transform kids]\<rparr>)
       = Inr (Done, skeleton', st')"
    by blast
  note k0 = CreateJointName_keeps_base [OF cj]
    and rng = CreateJointName_Inr [OF cj, THEN conjunct2, THEN conjunct2]
    and k1 = ImportChildren_keys [OF kids] and k2 = import_roots_keys [OF tail]
  from Cons.prems(2) consider
      (here) "k = r0"
    | (below) "k \<in> set (visit_children fuel m (node_children (nodes m ! nat r0)))"
    | (after) "k \<in> set (visit_roots fuel m rs)"
    by (auto simp: visit_roots_def)
  then show ?case
  proof cases
    case here
    with k0 k1 k2 rng show ?thesis by blast
  next
    case below
    from ImportChildren_visited [OF kids below] k2 show ?thesis by blast
  next
    case after
    from Cons.IH [OF tail after] show ?thesis .
  qed
qed

lemma import_roots_suffixes:
  "import_roots fuel m rs st skeleton = Inr (Done, skeleton', st') \<Longrightarrow>
   (\<And>k. k \<in> set (visit_roots fuel m rs) \<Longrightarrow> base_name m k \<in> fst ` set (existingNames st)) \<Longrightarrow>
   skeleton_names skeleton' =
     skeleton_names skeleton @ map (\<lambda>k. c_str (suffixed_name m k)) (visit_roots fuel m rs)"
proof (induction rs arbitrary: st skeleton)
  case Nil
  then show ?case by (simp add: visit_roots_def)
next
  case (Cons r0 rs)
  from import_roots_Cons_Done [OF Cons.prems(1)] obtain nm st1 transform kids st2 where
    cj: "CreateJointName m r0 st = Inr (nm, st1)" and
    kids: "ImportChildren fuel m (node_children (nodes m ! nat r0)) st1 = Inr (Done, kids, st2)" and
    tail: "import_roots fuel m rs st2
             (skeleton\<lparr>roots := roots skeleton @ [Joint (c_str nm) transform kids]\<rparr>)
       = Inr (Done, skeleton', st')"
    by blast
  note k0 = CreateJointName_keeps_base [OF cj] and k1 = ImportChildren_keys [OF kids]
  have "base_name m r0 \<in> fst ` set (existingNames st)"
    by (rule Cons.prems(2)) (simp add: visit_roots_def)
  with CreateJointName_Inr [OF cj] have nm: "nm = suffixed_name m r0"
    by simp
  have below: "concat (map joint_names kids) =
      map (\<lambda>k. c_str (suffixed_name m k)) (visit_children fuel m (node_children (nodes m ! nat r0)))"
  proof (rule ImportChildren_suffixes [OF kids])
    fix k
    assume "k \<in> set (visit_children fuel m (node_children (nodes m ! nat r0)))"
    then have "base_name m k \<in> fst ` set (existingNames st)"
      by (intro Cons.prems(2)) (simp add: visit_roots_def)
    with k0 show "base_name m k \<in> fst ` set (existingNames st1)" by blast
  qed
  have "skeleton_names skeleton' =
      skeleton_names (skeleton\<lparr>roots := roots skeleton @ [Joint (c_str nm) transform kids]\<rparr>) @
      map (\<lambda>k. c_str (suffixed_name m k)) (visit_roots fuel m rs)"
  proof (rule Cons.IH [OF tail])
    fix k
    assume "k \<in> set (visit_roots fuel m rs)"
    then have "base_name m k \<in> fst ` set (existingNames st)"
      by (intro Cons.prems(2)) (simp add: visit_roots_def)
    with k0 k1 show "base_name m k \<in> fst ` set (existingNames st2)" by blast
  qed
  with nm below show ?case
    by (simp add: skeleton_names_def visit_roots_def)
qed

lemma import_roots_prefix:
  "import_roots fuel m rs st skeleton = Inr (Done, skeleton', st') \<Longrightarrow>
   \<exists>js. roots skeleton' = roots skeleton @ js"
proof (induction rs arbitrary: st skeleton)
  case Nil
  then show ?case by simp
next
  case (Cons r0 rs)
  from import_roots_Cons_Done [OF Cons.prems] obtain nm transform kids st2 where
    "import_roots fuel m rs st2
       (skeleton\<lparr>roots := roots skeleton @ [Joint (c_str nm) transform kids]\<rparr>)
       = Inr (Done, skeleton', st')"
    by blast
  from Cons.IH [OF this] show ?case by auto
qed

lemma import_roots_first:
  assumes "import_roots fuel m (r0 # rs) st \<lparr>roots = []\<rparr> = Inr (Done, skeleton', st')"
  shows "\<exists>nm st1. CreateJointName m r0 st = Inr (nm, st1) \<and>
           hd (skeleton_names skeleton') = c_str nm \<and> skeleton_names skeleton' \<noteq> []"
proof -
  from import_roots_Cons_Done [OF assms] obtain nm st1 transform kids st2 where
    cj: "CreateJointName m r0 st = Inr (nm, st1)" and
    tail: "import_roots fuel m rs st2
             (\<lparr>roots = []\<rparr>\<lparr>roots := roots \<lparr>roots = []\<rparr> @ [Joint (c_str nm) transform kids]\<rparr>)
       = Inr (Done, skeleton', st')"
    by blast
  from import_roots_prefix [OF tail] obtain js where
    "roots skeleton' = Joint (c_str nm) transform kids # js"
    by auto
  then have "hd (skeleton_names skeleton') = c_str nm \<and> skeleton_names skeleton' \<noteq> []"
    by (simp add: skeleton_names_def)
  with cj show ?thesis by blast
qed

lemma set_set_insert: "set (set_insert x xs) = insert x (set xs)"
  by (auto simp: set_insert_def set_insort_key)

lemma set_insert_not_Nil: "set_insert x xs \<noteq> []"
  using set_set_insert [of x xs] by (metis empty_set insert_not_empty)

lemma set_foldl_set_insert: "set (foldl (\<lambda>s c. set_insert c s) xs cs) = set xs \<union> set cs"
  by (induction cs arbitrary: xs) (auto simp: set_set_insert)

lemma traverse_found:
  "traverse fuel m opn found = Inr f \<Longrightarrow> x \<in> set f \<Longrightarrow> x \<in> set found \<or> 0 \<le> x"
proof (induction fuel m opn found rule: traverse.induct)
  case (1 m opn found)
  then show ?case by simp
next
  case (2 fuel m found)
  then show ?case by simp
next
  case (3 fuel m nodeIndex opn found)
  from "3.prems"(1) obtain node where
    rd: "read_int (nodes m) nodeIndex = Inr node" and
    rest: "traverse fuel m (foldl (\<lambda>s c. set_insert c s) opn (node_children node))
             (set_insert nodeIndex found) = Inr f"
    by (auto simp: bindA_eq_Inr)
  from "3.IH" [OF rest "3.prems"(2)] rd show ?case
    by (auto simp: set_set_insert read_int_Inr)
qed

lemma GetSkinsForScene_heads:
  assumes "GetSkinsForScene fuel m scene = Inr sks" and "skin \<in> set sks"
  shows "joints skin \<noteq> [] \<and> 0 \<le> hd (joints skin)"
proof -
  from assms obtain found where
    tr: "traverse fuel m (foldl (\<lambda>s c. set_insert c s) [] (scene_nodes scene)) [] = Inr found" and
    "joints skin \<noteq> []" "hd (joints skin) \<in> set found"
    by (auto simp: GetSkinsForScene_def bindA_eq_Inr)
  with traverse_found [OF tr, of "hd (joints skin)"] show ?thesis by simp
qed

lemma insert_children_values:
  "snd ` set (insert_children nodeIndex cs parents) \<subseteq> insert nodeIndex (snd ` set parents)"
proof (induction cs arbitrary: parents)
  case Nil
  then show ?case by auto
next
  case (Cons c cs)
  have "snd ` set (map_insert c nodeIndex parents) \<subseteq> insert nodeIndex (snd ` set parents)"
    by (cases "map_of parents c") (auto simp: map_insert_def)
  with Cons [of "map_insert c nodeIndex parents"] show ?case
    by auto
qed

lemma build_parents_values:
  "build_parents m js parents = Inr parents' \<Longrightarrow> v \<in> snd ` set parents' \<Longrightarrow>
   v \<in> snd ` set parents \<or> 0 \<le> v"
proof (induction js arbitrary: parents)
  case Nil
  then show ?case by simp
next
  case (Cons j js)
  from Cons.prems(1) obtain node where
    rd: "read_int (nodes m) j = Inr node" and
    rest: "build_parents m js (insert_children j (node_children node) parents) = Inr parents'"
    by (auto simp: bindA_eq_Inr)
  from Cons.IH [OF rest Cons.prems(2)] insert_children_values [of j "node_children node" parents] rd
  show ?case
    by (auto simp: read_int_Inr)
qed

lemma climb_result:
  "climb fuel parents r = Inr r' \<Longrightarrow> r' = r \<or> r' \<in> snd ` set parents"
proof (induction fuel arbitrary: r)
  case 0
  then show ?case by simp
next
  case (Suc fuel)
  show ?case
  proof (cases "map_of parents r")
    case None
    with Suc.prems show ?thesis by simp
  next
    case (Some p)
    then have "p \<in> snd ` set parents"
      by (force dest: map_of_SomeD)
    with Suc.IH [of p] Suc.prems Some show ?thesis by auto
  qed
qed

lemma FindSkinRootJointIndex_nonneg:
  assumes "FindSkinRootJointIndex fuel m skin = Inr r" and "joints skin \<noteq> []"
      and "0 \<le> hd (joints skin)"
  shows "0 \<le> r"
proof -
  from assms obtain parents where
    bp: "build_parents m (joints skin) [] = Inr parents" and
    cl: "climb fuel parents (hd (joints skin)) = Inr r"
    by (auto simp: FindSkinRootJointIndex_def bindA_eq_Inr)
  from climb_result [OF cl] build_parents_values [OF bp, of r] assms(3)
  show ?thesis by auto
qed

lemma root_indices_not_Nil:
  "root_indices fuel m sks rootJoints = Inr rootJoints' \<Longrightarrow>
   (\<And>skin. skin \<in> set sks \<Longrightarrow> joints skin \<noteq> [] \<and> 0 \<le> hd (joints skin)) \<Longrightarrow>
   sks \<noteq> [] \<or> rootJoints \<noteq> [] \<Longrightarrow> rootJoints' \<noteq> []"
proof (induction sks arbitrary: rootJoints)
  case Nil
  then show ?case by simp
next
  case (Cons skin sks)
  from Cons.prems(1) obtain r where
    fr: "FindSkinRootJointIndex fuel m skin = Inr r" and
    rest: "(if r = - 1 then root_indices fuel m sks rootJoints
            else root_indices fuel m sks (set_insert r rootJoints)) = Inr rootJoints'"
    by (auto simp: bindA_eq_Inr)
  from FindSkinRootJointIndex_nonneg [OF fr] Cons.prems(2) [of skin] have "0 \<le> r" by simp
  with rest have "root_indices fuel m sks (set_insert r rootJoints) = Inr rootJoints'"
    by simp
  from Cons.IH [OF this] Cons.prems(2) show ?case
    by (simp add: set_insert_not_Nil)
qed

lemma validated_Done3:
  "(case r of
      Failed e \<Rightarrow> Inr (Failed e, x, s)
    | Done \<Rightarrow> if \<not> V x then Inr (Failed e', x, s) else Inr (Done, x, s)) = Inr (Done, a, t)
   \<longleftrightarrow> r = Done \<and> V a \<and> x = a \<and> s = t"
  by (cases r) auto

lemma Import_skeleton_Done:
  assumes "Import_skeleton lib fuel m st skeleton = Inr (Done, skeleton', st')"
  shows "\<exists>scene sks rootJoints.
           read_int (scenes m) (if defaultScene m = - 1 then 0 else defaultScene m) = Inr scene \<and>
           GetSkinsForScene fuel m scene = Inr sks \<and> sks \<noteq> [] \<and>
           root_indices fuel m sks [] = Inr rootJoints \<and>
           import_roots fuel m rootJoints st skeleton = Inr (Done, skeleton', st') \<and>
           Validate_skeleton lib skeleton'"
proof -
  from assms have ne: "scenes m \<noteq> []" "skins m \<noteq> []"
    by (auto simp: Import_skeleton_def split: if_splits)
  with assms obtain scene where
    sc: "read_int (scenes m) (if defaultScene m = - 1 then 0 else defaultScene m) = Inr scene" and
    r1: "(if scene_nodes scene = [] then Inr (Failed SceneHasNoNodes, skeleton, st)
          else
            bindA (GetSkinsForScene fuel m scene) (\<lambda>sks.
              if sks = [] then Inr (Failed NoSkinsInScene, skeleton, st)
              else
                bindA (root_indices fuel m sks []) (\<lambda>rootJoints.
                bindA (import_roots fuel m rootJoints st skeleton) (\<lambda>(r, skeleton', st').
                  case r of
                    Failed e \<Rightarrow> Inr (Failed e, skeleton', st')
                  | Done \<Rightarrow>
                      if \<not> Validate_skeleton lib skeleton'
                      then Inr (Failed SkeletonValidationFailed, skeleton', st')
                      else Inr (Done, skeleton', st'))))) = Inr (Done, skeleton', st')"
    by (auto simp: Import_skeleton_def Let_def bindA_eq_Inr)
  from r1 obtain sks where
    gs: "GetSkinsForScene fuel m scene = Inr sks" and
    r2: "(if sks = [] then Inr (Failed NoSkinsInScene, skeleton, st)
              else
                bindA (root_indices fuel m sks []) (\<lambda>rootJoints.
                bindA (import_roots fuel m rootJoints st skeleton) (\<lambda>(r, skeleton', st').
                  case r of
                    Failed e \<Rightarrow> Inr (Failed e, skeleton', st')
                  | Done \<Rightarrow>
                      if \<not> Validate_skeleton lib skeleton'
                      then Inr (Failed SkeletonValidationFailed, skeleton', st')
                      else Inr (Done, skeleton', st')))) = Inr (Done, skeleton', st')"
    by (auto simp: bindA_eq_Inr split: if_splits)
  from r2 have sks: "sks \<noteq> []"
    by (auto split: if_splits)
  with r2 have "\<exists>rootJoints.
      root_indices fuel m sks [] = Inr rootJoints \<and>
      import_roots fuel m rootJoints st skeleton = Inr (Done, skeleton', st') \<and>
      Validate_skeleton lib skeleton'"
    by (simp add: bindA_eq_Inr validated_Done3 split_paired_Ex split: prod.splits)
  with sc gs sks show ?thesis by blast
qed



text \<open>
  C3. The claim: every channel with a target node is sampled into the track of the
  joint that bears the target's name in the built skeleton. The channels are grouped
  by the node's glTF name, not by the name \<^verbatim>\<open>CreateJointName\<close> gave the joint. In
  \<open>twin_model\<close> the child is the joint \<open>a_1\<close>; the channel of \<open>nod\<close> targets the child
  (node 1), is sampled into the track of the joint \<open>a\<close> (node 0), and the track of
  \<open>a_1\<close> holds the bind pose only.
\<close>

theorem channel_of_renamed_joint_goes_to_its_namesake:
  "Import_skeleton gltf_ozz 5 twin_model fresh_importer fresh_skeleton =
     Inr (Done, twin_skeleton, twin_importer) \<and>
   skeleton_names twin_skeleton = [''a'', ''a_1''] \<and>
   map target_node (channels (animations twin_model ! 0)) = [1] \<and>
   Import_animation gltf_ozz ndebug twin_model twin_importer ''nod'' [''a'', ''a_1''] 30
     empty_animation =
     Inr (Done,
          \<lparr>name = ''nod'', duration = 1,
           tracks =
             [\<lparr>translationKeys = linear_keys, rotationKeys = bind_rotation_keys,
               scaleKeys = bind_scale_keys\<rparr>,
              \<lparr>translationKeys = [\<lparr>time = Finite 0, key_value = Float3_of 0 0 0\<rparr>],
               rotationKeys = bind_rotation_keys, scaleKeys = bind_scale_keys\<rparr>]\<rparr>)"
proof -
  have 2: "skeleton_names twin_skeleton = [''a'', ''a_1'']"
    by (simp add: skeleton_names_def twin_skeleton_def)
  have 3: "map target_node (channels (animations twin_model ! 0)) = [1]"
    by (simp add: twin_model_def)
  have 4: "Import_animation gltf_ozz ndebug twin_model twin_importer ''nod'' [''a'', ''a_1''] 30
     empty_animation =
     Inr (Done,
          \<lparr>name = ''nod'', duration = 1,
           tracks =
             [\<lparr>translationKeys = linear_keys, rotationKeys = bind_rotation_keys,
               scaleKeys = bind_scale_keys\<rparr>,
              \<lparr>translationKeys = [\<lparr>time = Finite 0, key_value = Float3_of 0 0 0\<rparr>],
               rotationKeys = bind_rotation_keys, scaleKeys = bind_scale_keys\<rparr>]\<rparr>)"
    by (simp add: import_defs run_defs twin_model_def twin_importer_def plain_node_def)
  from build_twin 2 3 4 show ?thesis by blast
qed

subsection \<open>A second build of the skeleton\<close>

lemma c_str_nul_free: "CHR 0x00 \<notin> set s \<Longrightarrow> c_str s = s"
  by (auto simp: c_str_def)

lemma digit_not_nul: "d < 10 \<Longrightarrow> ''0123456789'' ! d \<noteq> CHR 0x00"
proof -
  assume "d < 10"
  then have "''0123456789'' ! d \<in> set ''0123456789''"
    by (intro nth_mem) simp
  then show ?thesis by auto
qed

lemma show_nat_nul_free: "CHR 0x00 \<notin> set (show_nat n)"
proof (induction n rule: show_nat.induct)
  case (1 n)
  show ?case
  proof (cases "n < 10")
    case True
    from digit_not_nul [OF True] True show ?thesis
      by (subst show_nat.simps) (auto simp del: show_nat.simps)
  next
    case False
    have "n mod 10 < 10" by simp
    from digit_not_nul [OF this] "1.IH" [OF False] False show ?thesis
      by (subst show_nat.simps) (auto simp del: show_nat.simps)
  qed
qed

lemma show_int_nul_free: "CHR 0x00 \<notin> set (show_int i)"
  by (simp add: show_int_def show_nat_nul_free del: show_nat.simps)

lemma suffixed_name_nul_free:
  assumes "nul_free m" and "0 \<le> k" and "nat k < length (nodes m)"
  shows "CHR 0x00 \<notin> set (base_name m k) \<and> CHR 0x00 \<notin> set (suffixed_name m k)"
proof -
  from assms have "CHR 0x00 \<notin> set (node_name (nodes m ! nat k))"
    by (simp add: nul_free_def list_all_length)
  then have "CHR 0x00 \<notin> set (base_name m k)"
    by (simp add: base_name_def show_int_nul_free)
  then show ?thesis
    by (simp add: suffixed_name_def show_int_nul_free)
qed

text \<open>
  C10. The claim: because the name registry lasts as long as the process, a second
  build of the skeleton of the same input yields other joint names than the first.
  A joint stores its name up to the first NUL. The only node of \<open>nul_model\<close> is named
  \<open>a\<close>, NUL, \<open>b\<close>: the second build names the joint \<open>a\<close>, NUL, \<open>b_0\<close>, and both builds
  store the name \<open>a\<close>.
\<close>

theorem second_build_can_store_the_same_names:
  "Import_skeleton gltf_ozz 5 nul_model fresh_importer fresh_skeleton =
     Inr (Done, nul_skeleton, nul_importer) \<and>
   Import_skeleton gltf_ozz 5 nul_model nul_importer fresh_skeleton =
     Inr (Done, nul_skeleton, nul_importer2) \<and>
   skeleton_names nul_skeleton = [''a'']"
  by (simp add: skeleton_defs nul_model_def nul_skeleton_def nul_importer_def nul_importer2_def
      numeral_eq_Suc gltf_ozz_def valid_skeleton_def skeleton_names_def)

text \<open>
  C10, with the name as the joint stores it. In the second of two successful builds
  of the skeleton of one model, one after the other by the same importer, every
  joint is named after its node with the suffix \<open>_<node index>\<close>, cut at the first
  NUL: the registry still holds the names of the first build. When no node name
  holds a NUL, these are the suffixed names themselves, and if the registry was
  empty before the first build the joint names of the two builds differ.
\<close>

theorem second_build_suffixes_every_joint:
  assumes "Import_skeleton lib fuel m st0 \<lparr>roots = []\<rparr> = Inr (Done, skeleton1, st1)"
      and "Import_skeleton lib fuel m st1 \<lparr>roots = []\<rparr> = Inr (Done, skeleton2, st2)"
  shows "skeleton_names skeleton2 = map (\<lambda>k. c_str (suffixed_name m k)) (visited_nodes fuel m) \<and>
         (nul_free m \<longrightarrow>
            skeleton_names skeleton2 = map (suffixed_name m) (visited_nodes fuel m)) \<and>
         (nul_free m \<and> existingNames st0 = [] \<longrightarrow>
            skeleton_names skeleton1 \<noteq> skeleton_names skeleton2)"
proof -
  from Import_skeleton_Done [OF assms(1)] obtain scene sks rootJoints where
    sc: "read_int (scenes m) (if defaultScene m = - 1 then 0 else defaultScene m) = Inr scene" and
    gs: "GetSkinsForScene fuel m scene = Inr sks" and sks: "sks \<noteq> []" and
    ri: "root_indices fuel m sks [] = Inr rootJoints" and
    run1: "import_roots fuel m rootJoints st0 \<lparr>roots = []\<rparr> = Inr (Done, skeleton1, st1)"
    by blast
  from Import_skeleton_Done [OF assms(2)] sc gs ri have
    run2: "import_roots fuel m rootJoints st1 \<lparr>roots = []\<rparr> = Inr (Done, skeleton2, st2)"
    by auto
  have vn: "visited_nodes fuel m = visit_roots fuel m rootJoints"
    by (simp add: visited_nodes_def sc gs ri)
  note reg = import_roots_visited [OF run1]
  have "skeleton_names skeleton2 =
      skeleton_names \<lparr>roots = []\<rparr> @
      map (\<lambda>k. c_str (suffixed_name m k)) (visit_roots fuel m rootJoints)"
    by (rule import_roots_suffixes [OF run2]) (use reg in blast)
  then have names2: "skeleton_names skeleton2 =
      map (\<lambda>k. c_str (suffixed_name m k)) (visited_nodes fuel m)"
    by (simp add: skeleton_names_def vn)
  have plain: "skeleton_names skeleton2 = map (suffixed_name m) (visited_nodes fuel m)"
    if "nul_free m"
  proof -
    have "c_str (suffixed_name m k) = suffixed_name m k" if "k \<in> set (visited_nodes fuel m)" for k
    proof -
      from that reg [of k] have "0 \<le> k" "nat k < length (nodes m)"
        by (simp_all add: vn)
      from suffixed_name_nul_free [OF \<open>nul_free m\<close> this] show ?thesis
        by (simp add: c_str_nul_free)
    qed
    with names2 show ?thesis by simp
  qed
  have differ: "skeleton_names skeleton1 \<noteq> skeleton_names skeleton2"
    if "nul_free m" and "existingNames st0 = []"
  proof -
    have "rootJoints \<noteq> []"
      using root_indices_not_Nil [OF ri] GetSkinsForScene_heads [OF gs] sks by blast
    then obtain r0 rs where rj: "rootJoints = r0 # rs"
      by (cases rootJoints) auto
    from import_roots_first [OF run1 [unfolded rj]] obtain nm1 s1 where
      c1: "CreateJointName m r0 st0 = Inr (nm1, s1)" and
      h1: "hd (skeleton_names skeleton1) = c_str nm1"
      by blast
    from CreateJointName_Inr [OF c1] that(2) have
      n1: "nm1 = base_name m r0" and rng: "0 \<le> r0" "nat r0 < length (nodes m)"
      by simp_all
    note free = suffixed_name_nul_free [OF that(1) rng]
    from h1 n1 free have first1: "hd (skeleton_names skeleton1) = base_name m r0"
      by (simp add: c_str_nul_free)
    from plain [OF that(1)] have "hd (skeleton_names skeleton2) = suffixed_name m r0"
      by (simp add: vn rj visit_roots_def)
    with first1 show ?thesis
      by (auto simp: suffixed_name_def)
  qed
  from names2 plain differ show ?thesis by blast
qed

lemma leg_names:
  "skeleton_names leg_skeleton = [''hip'', ''knee''] \<and>
   skeleton_names leg_skeleton2 = [''hip_0'', ''knee_1''] \<and>
   visited_nodes 5 leg_model = [0, 1]"
  by (simp add: skeleton_names_def leg_skeleton_def leg_skeleton2_def visited_nodes_def
      visit_roots_def skeleton_defs leg_model_def numeral_eq_Suc)

theorem second_build_witness:
  "skeleton_names leg_skeleton2 =
     map (\<lambda>k. c_str (suffixed_name leg_model k)) (visited_nodes 5 leg_model) \<and>
   skeleton_names leg_skeleton2 = map (suffixed_name leg_model) (visited_nodes 5 leg_model) \<and>
   skeleton_names leg_skeleton \<noteq> skeleton_names leg_skeleton2 \<and>
   visited_nodes 5 leg_model = [0, 1] \<and>
   skeleton_names leg_skeleton = [''hip'', ''knee''] \<and>
   skeleton_names leg_skeleton2 = [''hip_0'', ''knee_1'']"
proof -
  have free: "nul_free leg_model"
    by (simp add: nul_free_def leg_model_def plain_node_def)
  have fresh: "existingNames fresh_importer = []"
    by (simp add: fresh_importer_def)
  from second_build_suffixes_every_joint [OF build_leg_once build_leg_twice] free fresh leg_names
  show ?thesis by blast
qed

subsection \<open>What the renaming does not catch\<close>

text \<open>
  \<^verbatim>\<open>CreateJointName\<close> never returns the empty string.
\<close>

theorem created_names_are_not_empty:
  assumes "CreateJointName m nodeIndex st = Inr (nm, st')"
  shows "nm \<noteq> []"
proof -
  have "base_name m nodeIndex \<noteq> []"
    by (simp add: base_name_def)
  with CreateJointName_Inr [OF assms] show ?thesis
    by (auto simp: suffixed_name_def split: if_splits)
qed

lemma name_hip:
  "CreateJointName leg_model 0 fresh_importer =
     Inr (''hip'', \<lparr>existingNames = [(''hip'', 0)], m_nodeNames = [(0, ''hip'')]\<rparr>)"
  by (simp add: skeleton_defs leg_model_def)

theorem created_name_witness:
  "''hip'' \<noteq> []"
  by (rule created_names_are_not_empty [OF name_hip])

text \<open>
  \<^verbatim>\<open>CreateJointName\<close> does not look the suffixed name up. In \<open>clash_model\<close> node 1 is
  named \<open>a_2\<close>, and node 2, named \<open>a\<close> like node 0, is renamed to \<open>a_2\<close> as well: the
  joints are named \<open>a\<close>, \<open>a_2\<close> and \<open>a_2\<close>, and whether the build succeeds is left to
  the validation of the skeleton.
\<close>

theorem joint_names_can_repeat:
  "Import_skeleton lib 5 clash_model fresh_importer fresh_skeleton =
     Inr (if \<not> Validate_skeleton lib clash_skeleton then Failed SkeletonValidationFailed else Done,
          clash_skeleton, clash_importer) \<and>
   skeleton_names clash_skeleton = [''a'', ''a_2'', ''a_2'']"
  by (simp add: skeleton_defs clash_model_def clash_skeleton_def clash_importer_def
      skeleton_names_def numeral_eq_Suc)

text \<open>
  The name that a joint stores ends at the first NUL. The only node of
  \<open>hidden_model\<close> has a name that starts with NUL: \<^verbatim>\<open>CreateJointName\<close> returns that
  name, the joint stores the empty name, and the build fails at the validation of
  the instance.
\<close>

theorem stored_joint_name_can_be_empty:
  "CreateJointName hidden_model 0 fresh_importer =
     Inr ([CHR 0x00, CHR ''x''],
          \<lparr>existingNames = [([CHR 0x00, CHR ''x''], 0)],
           m_nodeNames = [(0, [CHR 0x00, CHR ''x''])]\<rparr>) \<and>
   Import_skeleton gltf_ozz 5 hidden_model fresh_importer fresh_skeleton =
     Inr (Failed SkeletonValidationFailed,
          \<lparr>roots = [Joint [] bind_transform []]\<rparr>,
          \<lparr>existingNames = [([CHR 0x00, CHR ''x''], 0)],
           m_nodeNames = [(0, [CHR 0x00, CHR ''x''])]\<rparr>)"
  by (simp add: skeleton_defs hidden_model_def numeral_eq_Suc gltf_ozz_def valid_skeleton_def
      skeleton_names_def)

subsection \<open>The registry of node names after a build\<close>

text \<open>
  \<^verbatim>\<open>CreateJointName\<close> registers the name it returns under the node, unless the node
  is registered already.
\<close>

lemma CreateJointName_registers:
  assumes "CreateJointName m nodeIndex st = Inr (nm, st')"
      and "nodeIndex \<notin> fst ` set (m_nodeNames st)"
  shows "m_nodeNames st' = m_nodeNames st @ [(nodeIndex, nm)]"
proof -
  from assms(1) have "m_nodeNames st' = map_insert nodeIndex nm (m_nodeNames st)"
    by (auto simp: CreateJointName_def bindA_eq_Inr Let_def)
  moreover from assms(2) have "map_of (m_nodeNames st) nodeIndex = None"
    by (simp add: map_of_eq_None_iff)
  ultimately show ?thesis
    by (simp add: map_insert_def)
qed

lemma CreateJointName_cases:
  assumes "CreateJointName m nodeIndex st = Inr (nm, st')"
  shows "nm = base_name m nodeIndex \<or> nm = suffixed_name m nodeIndex"
  using CreateJointName_Inr [OF assms, THEN conjunct1] by (simp split: if_splits)

text \<open>
  A traversal that visits no node twice, and no node that is registered already,
  appends one entry to \<open>m_nodeNames\<close> for each node it visits, in the order of the
  visit: the name that \<^verbatim>\<open>CreateJointName\<close> returned for the node, which is the node's
  name with or without the suffix. The joints store these names, cut at NUL.
\<close>

lemma ImportChildren_registry:
  "ImportChildren fuel m cs st = Inr (Done, js, st') \<Longrightarrow>
   distinct (visit_children fuel m cs) \<Longrightarrow>
   set (visit_children fuel m cs) \<inter> fst ` set (m_nodeNames st) = {} \<Longrightarrow>
   \<exists>nms. length nms = length (visit_children fuel m cs) \<and>
         m_nodeNames st' = m_nodeNames st @ zip (visit_children fuel m cs) nms \<and>
         concat (map joint_names js) = map c_str nms \<and>
         list_all2 (\<lambda>k nm. nm = base_name m k \<or> nm = suffixed_name m k)
           (visit_children fuel m cs) nms"
proof (induction fuel m cs st arbitrary: js st' rule: ImportChildren.induct)
  case (1 m cs st)
  then show ?case by simp
next
  case (2 fuel m st)
  then show ?case by simp
next
  case (3 fuel m childIndex cs st)
  define V1 where "V1 = visit_children fuel m (node_children (nodes m ! nat childIndex))"
  define V2 where "V2 = visit_children (Suc fuel) m cs"
  have V: "visit_children (Suc fuel) m (childIndex # cs) = childIndex # V1 @ V2"
    by (simp add: V1_def V2_def)
  from "3.prems"(2) have d1: "distinct V1" and d2: "distinct V2" and
    c1: "childIndex \<notin> set V1" and c2: "childIndex \<notin> set V2" and d12: "set V1 \<inter> set V2 = {}"
    unfolding V by auto
  from "3.prems"(3) have f0: "childIndex \<notin> fst ` set (m_nodeNames st)" and
    f1: "set V1 \<inter> fst ` set (m_nodeNames st) = {}" and
    f2: "set V2 \<inter> fst ` set (m_nodeNames st) = {}"
    unfolding V by auto
  from ImportChildren_Cons_Done [OF "3.prems"(1)] obtain nm st1 transform kids st2 rest where
    cj: "CreateJointName m childIndex st = Inr (nm, st1)" and
    kids: "ImportChildren fuel m (node_children (nodes m ! nat childIndex)) st1
             = Inr (Done, kids, st2)" and
    sib: "ImportChildren (Suc fuel) m cs st2 = Inr (Done, rest, st')" and
    js: "js = Joint (c_str nm) transform kids # rest"
    by blast
  note r1 = CreateJointName_registers [OF cj f0]
  have "set V1 \<inter> fst ` set (m_nodeNames st1) = {}"
    using f1 c1 by (auto simp: r1)
  from "3.IH"(1) [OF kids d1 [unfolded V1_def] this [unfolded V1_def], folded V1_def]
  obtain nms1 where
    l1: "length nms1 = length V1" and
    r2: "m_nodeNames st2 = m_nodeNames st1 @ zip V1 nms1" and
    n1: "concat (map joint_names kids) = map c_str nms1" and
    a1: "list_all2 (\<lambda>k nm. nm = base_name m k \<or> nm = suffixed_name m k) V1 nms1"
    by blast
  from l1 have "fst ` set (zip V1 nms1) = set V1"
    by (metis map_fst_zip set_map)
  then have "set V2 \<inter> fst ` set (m_nodeNames st2) = {}"
    using f2 c2 d12 by (auto simp: r1 r2 image_Un)
  from "3.IH"(2) [OF refl sib d2 [unfolded V2_def] this [unfolded V2_def], folded V2_def]
  obtain nms2 where
    l2: "length nms2 = length V2" and
    r3: "m_nodeNames st' = m_nodeNames st2 @ zip V2 nms2" and
    n2: "concat (map joint_names rest) = map c_str nms2" and
    a2: "list_all2 (\<lambda>k nm. nm = base_name m k \<or> nm = suffixed_name m k) V2 nms2"
    by blast
  let ?nms = "nm # nms1 @ nms2"
  have "length ?nms = length (childIndex # V1 @ V2)"
    using l1 l2 by simp
  moreover have "m_nodeNames st' = m_nodeNames st @ zip (childIndex # V1 @ V2) ?nms"
    using l1 by (simp add: r1 r2 r3)
  moreover have "concat (map joint_names js) = map c_str ?nms"
    by (simp add: js n1 n2)
  moreover have "list_all2 (\<lambda>k nm. nm = base_name m k \<or> nm = suffixed_name m k)
           (childIndex # V1 @ V2) ?nms"
    using CreateJointName_cases [OF cj] a1 a2 by (simp add: list_all2_appendI)
  ultimately show ?case
    unfolding V by blast
qed

lemma import_roots_registry:
  "import_roots fuel m rs st skeleton = Inr (Done, skeleton', st') \<Longrightarrow>
   distinct (visit_roots fuel m rs) \<Longrightarrow>
   set (visit_roots fuel m rs) \<inter> fst ` set (m_nodeNames st) = {} \<Longrightarrow>
   \<exists>nms. length nms = length (visit_roots fuel m rs) \<and>
         m_nodeNames st' = m_nodeNames st @ zip (visit_roots fuel m rs) nms \<and>
         skeleton_names skeleton' = skeleton_names skeleton @ map c_str nms \<and>
         list_all2 (\<lambda>k nm. nm = base_name m k \<or> nm = suffixed_name m k)
           (visit_roots fuel m rs) nms"
proof (induction rs arbitrary: st skeleton)
  case Nil
  then show ?case by (simp add: visit_roots_def)
next
  case (Cons r0 rs)
  define V1 where "V1 = visit_children fuel m (node_children (nodes m ! nat r0))"
  define V2 where "V2 = visit_roots fuel m rs"
  have V: "visit_roots fuel m (r0 # rs) = r0 # V1 @ V2"
    by (simp add: V1_def V2_def visit_roots_def)
  from Cons.prems(2) have d1: "distinct V1" and d2: "distinct V2" and
    c1: "r0 \<notin> set V1" and c2: "r0 \<notin> set V2" and d12: "set V1 \<inter> set V2 = {}"
    unfolding V by auto
  from Cons.prems(3) have f0: "r0 \<notin> fst ` set (m_nodeNames st)" and
    f1: "set V1 \<inter> fst ` set (m_nodeNames st) = {}" and
    f2: "set V2 \<inter> fst ` set (m_nodeNames st) = {}"
    unfolding V by auto
  from import_roots_Cons_Done [OF Cons.prems(1)] obtain nm st1 transform kids st2 where
    cj: "CreateJointName m r0 st = Inr (nm, st1)" and
    kids: "ImportChildren fuel m (node_children (nodes m ! nat r0)) st1 = Inr (Done, kids, st2)" and
    tail: "import_roots fuel m rs st2
             (skeleton\<lparr>roots := roots skeleton @ [Joint (c_str nm) transform kids]\<rparr>)
       = Inr (Done, skeleton', st')"
    by blast
  note r1 = CreateJointName_registers [OF cj f0]
  have "set V1 \<inter> fst ` set (m_nodeNames st1) = {}"
    using f1 c1 by (auto simp: r1)
  from ImportChildren_registry [OF kids d1 [unfolded V1_def] this [unfolded V1_def], folded V1_def]
  obtain nms1 where
    l1: "length nms1 = length V1" and
    r2: "m_nodeNames st2 = m_nodeNames st1 @ zip V1 nms1" and
    n1: "concat (map joint_names kids) = map c_str nms1" and
    a1: "list_all2 (\<lambda>k nm. nm = base_name m k \<or> nm = suffixed_name m k) V1 nms1"
    by blast
  from l1 have "fst ` set (zip V1 nms1) = set V1"
    by (metis map_fst_zip set_map)
  then have "set V2 \<inter> fst ` set (m_nodeNames st2) = {}"
    using f2 c2 d12 by (auto simp: r1 r2 image_Un)
  from Cons.IH [OF tail d2 [unfolded V2_def] this [unfolded V2_def], folded V2_def]
  obtain nms2 where
    l2: "length nms2 = length V2" and
    r3: "m_nodeNames st' = m_nodeNames st2 @ zip V2 nms2" and
    n2: "skeleton_names skeleton' =
           skeleton_names (skeleton\<lparr>roots := roots skeleton @ [Joint (c_str nm) transform kids]\<rparr>)
           @ map c_str nms2" and
    a2: "list_all2 (\<lambda>k nm. nm = base_name m k \<or> nm = suffixed_name m k) V2 nms2"
    by blast
  let ?nms = "nm # nms1 @ nms2"
  have "length ?nms = length (r0 # V1 @ V2)"
    using l1 l2 by simp
  moreover have "m_nodeNames st' = m_nodeNames st @ zip (r0 # V1 @ V2) ?nms"
    using l1 by (simp add: r1 r2 r3)
  moreover have "skeleton_names skeleton' = skeleton_names skeleton @ map c_str ?nms"
    using n2 n1 by (simp add: skeleton_names_def)
  moreover have "list_all2 (\<lambda>k nm. nm = base_name m k \<or> nm = suffixed_name m k)
           (r0 # V1 @ V2) ?nms"
    using CreateJointName_cases [OF cj] a1 a2 by (simp add: list_all2_appendI)
  ultimately show ?case
    unfolding V by blast
qed


text \<open>
  The joints and the registry after a successful build by an importer that has
  registered no node yet, of a model without NUL in its node names, in which the
  traversal visits no node twice, under a validation that accepts pairwise different
  names only: the skeleton has one joint for each visited node, and the name of the
  joint is registered for that node and for no other.
\<close>

theorem built_joints_are_registered_under_their_names:
  assumes "Import_skeleton lib fuel m st0 \<lparr>roots = []\<rparr> = Inr (Done, skeleton, st)"
      and "m_nodeNames st0 = []"
      and "\<And>sk. Validate_skeleton lib sk \<Longrightarrow> valid_skeleton sk"
      and "distinct (visited_nodes fuel m)"
      and "nul_free m"
      and "j < length (visited_nodes fuel m)"
  shows "length (skeleton_names skeleton) = length (visited_nodes fuel m) \<and>
         0 \<le> visited_nodes fuel m ! j \<and>
         nat (visited_nodes fuel m ! j) < length (nodes m) \<and>
         map_of (m_nodeNames st) (visited_nodes fuel m ! j) = Some (skeleton_names skeleton ! j) \<and>
         (\<forall>k' < length (nodes m).
            map_of (m_nodeNames st) (int k') = Some (skeleton_names skeleton ! j)
            \<longrightarrow> k' = nat (visited_nodes fuel m ! j))"
proof -
  from Import_skeleton_Done [OF assms(1)] obtain scene sks rootJoints where
    sc: "read_int (scenes m) (if defaultScene m = - 1 then 0 else defaultScene m) = Inr scene" and
    gs: "GetSkinsForScene fuel m scene = Inr sks" and
    ri: "root_indices fuel m sks [] = Inr rootJoints" and
    run: "import_roots fuel m rootJoints st0 \<lparr>roots = []\<rparr> = Inr (Done, skeleton, st)" and
    ok: "Validate_skeleton lib skeleton"
    by blast
  define V where "V = visited_nodes fuel m"
  have vn: "visit_roots fuel m rootJoints = V"
    by (simp add: V_def visited_nodes_def sc gs ri)
  have dV: "distinct V" and jV: "j < length V"
    using assms(4,6) by (simp_all add: V_def)
  from import_roots_registry [OF run, unfolded vn] dV assms(2) obtain nms where
    len: "length nms = length V" and
    reg: "m_nodeNames st = zip V nms" and
    names: "skeleton_names skeleton = map c_str nms" and
    each: "list_all2 (\<lambda>k nm. nm = base_name m k \<or> nm = suffixed_name m k) V nms"
    by (auto simp: skeleton_names_def)
  have rng: "0 \<le> V ! i \<and> nat (V ! i) < length (nodes m)" if "i < length V" for i
    using import_roots_visited [OF run, unfolded vn, of "V ! i"] that by simp
  have plain: "c_str (nms ! i) = nms ! i" if "i < length V" for i
  proof -
    from each that have "nms ! i = base_name m (V ! i) \<or> nms ! i = suffixed_name m (V ! i)"
      by (simp add: list_all2_conv_all_nth)
    with suffixed_name_nul_free [OF assms(5)] rng [OF that] show ?thesis
      by (auto simp: c_str_nul_free)
  qed
  have nth_name: "skeleton_names skeleton ! i = nms ! i" if "i < length V" for i
    using that len plain [OF that] by (simp add: names)
  from assms(3) [OF ok] have dn: "distinct (skeleton_names skeleton)"
    by (simp add: valid_skeleton_def)
  have at: "map_of (m_nodeNames st) (V ! i) = Some (nms ! i)" if "i < length V" for i
    unfolding reg using len dV that by (intro map_of_zip_nth) simp_all
  have only: "k' = nat (V ! j)"
    if "k' < length (nodes m)" and "map_of (m_nodeNames st) (int k') = Some (skeleton_names skeleton ! j)"
    for k'
  proof -
    from that(2) have "(int k', skeleton_names skeleton ! j) \<in> set (zip V nms)"
      unfolding reg by (rule map_of_SomeD)
    then obtain i where i: "i < length V" and vi: "V ! i = int k'" and ni: "nms ! i = skeleton_names skeleton ! j"
      using len by (auto simp: in_set_zip)
    from ni nth_name [OF i] have "skeleton_names skeleton ! i = skeleton_names skeleton ! j"
      by simp
    moreover from i jV len have "i < length (skeleton_names skeleton)" "j < length (skeleton_names skeleton)"
      by (simp_all add: names)
    ultimately have "i = j"
      using dn by (simp add: nth_eq_iff_index_eq)
    with vi show ?thesis by simp
  qed
  have "length (skeleton_names skeleton) = length V"
    by (simp add: names len)
  with rng [OF jV] at [OF jV] nth_name [OF jV] only show ?thesis
    unfolding V_def [symmetric] by auto
qed

theorem registered_names_witness:
  "length (skeleton_names leg_skeleton) = length (visited_nodes 5 leg_model) \<and>
   visited_nodes 5 leg_model ! 1 = 1 \<and>
   skeleton_names leg_skeleton ! 1 = ''knee'' \<and>
   map_of (m_nodeNames leg_importer) (visited_nodes 5 leg_model ! 1) =
     Some (skeleton_names leg_skeleton ! 1) \<and>
   map_of (m_nodeNames leg_importer) (int 0) \<noteq> Some (skeleton_names leg_skeleton ! 1)"
proof -
  have fresh: "m_nodeNames fresh_importer = []"
    by (simp add: fresh_importer_def)
  have valid: "Validate_skeleton gltf_ozz sk \<Longrightarrow> valid_skeleton sk" for sk
    by (simp add: gltf_ozz_def)
  have visited: "visited_nodes 5 leg_model = [0, 1]"
    using leg_names by simp
  have free: "nul_free leg_model"
    by (simp add: nul_free_def leg_model_def plain_node_def)
  have "length (skeleton_names leg_skeleton) = length (visited_nodes 5 leg_model) \<and>
         0 \<le> visited_nodes 5 leg_model ! 1 \<and>
         nat (visited_nodes 5 leg_model ! 1) < length (nodes leg_model) \<and>
         map_of (m_nodeNames leg_importer) (visited_nodes 5 leg_model ! 1) =
           Some (skeleton_names leg_skeleton ! 1) \<and>
         (\<forall>k' < length (nodes leg_model).
            map_of (m_nodeNames leg_importer) (int k') = Some (skeleton_names leg_skeleton ! 1)
            \<longrightarrow> k' = nat (visited_nodes 5 leg_model ! 1))"
    by (rule built_joints_are_registered_under_their_names [OF build_leg_once fresh valid])
       (simp_all add: visited free)
  moreover have "(0::nat) < length (nodes leg_model)"
    by (simp add: leg_model_def)
  ultimately show ?thesis
    using leg_names by (auto simp: visited)
qed

subsection \<open>What the three samplers do produce\<close>

text \<open>
  A LINEAR channel: one key per source sample, with the sample's time and value,
  whatever the key vector held before.
\<close>

lemma linear_loop_result:
  assumes "cnt \<le> length vals" and "cnt \<le> length timestamps" and "length ks = cnt"
  shows "\<exists>ks'. linear_loop cnt vals timestamps i ks = Inr ks' \<and> length ks' = cnt \<and>
           (\<forall>j. i \<le> j \<and> j < cnt \<longrightarrow> ks' ! j = \<lparr>time = Finite (timestamps ! j), key_value = vals ! j\<rparr>) \<and>
           (\<forall>j. j < i \<longrightarrow> ks' ! j = ks ! j)"
  using assms
proof (induction cnt vals timestamps i ks rule: linear_loop.induct)
  case (1 cnt vals timestamps i ks)
  note unfold = linear_loop.simps [of cnt vals timestamps i ks]
  show ?case
  proof (cases "i < cnt")
    case False
    with unfold "1.prems" show ?thesis by auto
  next
    case True
    define k where "k = \<lparr>time = Finite (timestamps ! i), key_value = vals ! i\<rparr>"
    from True "1.prems" unfold have
      step: "linear_loop cnt vals timestamps i ks = linear_loop cnt vals timestamps (i + 1) (ks[i := k])"
      by (simp add: read_at_def k_def)
    have "length (ks[i := k]) = cnt" using "1.prems" by simp
    from "1.IH" [where x = "timestamps ! i" and xa = "vals ! i", OF True "1.prems"(1,2),
        folded k_def, OF this]
    obtain ks' where
      all: "linear_loop cnt vals timestamps (i + 1) (ks[i := k]) = Inr ks' \<and> length ks' = cnt \<and>
        (\<forall>j. i + 1 \<le> j \<and> j < cnt \<longrightarrow> ks' ! j = \<lparr>time = Finite (timestamps ! j), key_value = vals ! j\<rparr>) \<and>
        (\<forall>j. j < i + 1 \<longrightarrow> ks' ! j = (ks[i := k]) ! j)"
      ..
    note res = all [THEN conjunct1]
      and l = all [THEN conjunct2, THEN conjunct1]
      and later = all [THEN conjunct2, THEN conjunct2, THEN conjunct1]
      and keep = all [THEN conjunct2, THEN conjunct2, THEN conjunct2]
    from keep [rule_format, of i] True "1.prems"(3) have here: "ks' ! i = k" by simp
    have a: "ks' ! j = \<lparr>time = Finite (timestamps ! j), key_value = vals ! j\<rparr>" if "i \<le> j" "j < cnt" for j
    proof (cases "j = i")
      case True
      with here show ?thesis by (simp add: k_def)
    next
      case False
      with that later [rule_format, of j] show ?thesis by simp
    qed
    have b: "ks' ! j = ks ! j" if "j < i" for j
      using that keep [rule_format, of j] by simp
    show ?thesis
    proof (intro exI conjI allI impI)
      show "linear_loop cnt vals timestamps i ks = Inr ks'" using step res by simp
      show "length ks' = cnt" by (rule l)
      show "ks' ! j = \<lparr>time = Finite (timestamps ! j), key_value = vals ! j\<rparr>" if "i \<le> j \<and> j < cnt" for j
        using that a by blast
      show "ks' ! j = ks ! j" if "j < i" for j using that by (rule b)
    qed
  qed
qed

theorem linear_channel_copies_the_samples:
  assumes "view out = Some vals" and "count out \<le> length vals"
      and "count out \<le> length timestamps"
  shows "SampleLinearChannel view key0 out timestamps keyframes =
           Inr (Done, map (\<lambda>i. \<lparr>time = Finite (timestamps ! i), key_value = vals ! i\<rparr>) [0 ..< count out])"
proof -
  define ks0 where "ks0 = resize_vec (count out) key0 keyframes"
  have len: "length ks0 = count out"
    by (simp add: resize_vec_def ks0_def)
  from linear_loop_result [OF assms(2) assms(3) len, of 0] obtain ks where
    all: "linear_loop (count out) vals timestamps 0 ks0 = Inr ks \<and> length ks = count out \<and>
           (\<forall>j. 0 \<le> j \<and> j < count out \<longrightarrow> ks ! j = \<lparr>time = Finite (timestamps ! j), key_value = vals ! j\<rparr>) \<and>
           (\<forall>j. j < 0 \<longrightarrow> ks ! j = ks0 ! j)"
    ..
  note res = all [THEN conjunct1]
    and l = all [THEN conjunct2, THEN conjunct1]
    and each = all [THEN conjunct2, THEN conjunct2, THEN conjunct1]
  have "ks = map (\<lambda>i. \<lparr>time = Finite (timestamps ! i), key_value = vals ! i\<rparr>) [0 ..< count out]"
  proof (rule nth_equalityI)
    show "length ks = length (map (\<lambda>i. \<lparr>time = Finite (timestamps ! i), key_value = vals ! i\<rparr>) [0 ..< count out])"
      using l by simp
    show "ks ! i = map (\<lambda>i. \<lparr>time = Finite (timestamps ! i), key_value = vals ! i\<rparr>) [0 ..< count out] ! i"
      if "i < length ks" for i
      using that l each [rule_format, of i] by simp
  qed
  with assms(1) res show ?thesis
    by (simp add: SampleLinearChannel_def ks0_def)
qed

theorem linear_channel_witness:
  "SampleLinearChannel (BufferView_Float3 gltf_ozz) Float3_Key0 (accessors step_model ! 1)
     [0, 1] [] =
   Inr (Done, map (\<lambda>i. \<lparr>time = Finite ([0, 1] ! i),
                             key_value = [Float3_of 1 2 3, Float3_of 4 5 6] ! i\<rparr>)
                [0 ..< count (accessors step_model ! 1)])"
  by (rule linear_channel_copies_the_samples) (simp_all add: step_model_def run_defs)

text \<open>
  A STEP channel sampled into an empty key vector, \<open>n\<close> being the number of source
  samples: \<open>2n\<close> keys come back; key \<open>2i\<close> carries sample \<open>i\<close>; key \<open>2i + 1\<close>, for \<open>i\<close>
  before the last sample, carries the time of sample \<open>i + 1\<close> less \<open>eps\<close> and the value
  of sample \<open>i\<close>; the key at \<open>2n - 1\<close> is the value-initialised one.
\<close>

lemma step_loop_result:
  assumes "cnt \<le> length vals" and "cnt \<le> length timestamps" and "length ks = 2 * cnt"
  shows "\<exists>ks'. step_loop cnt vals timestamps i ks = Inr ks' \<and> length ks' = 2 * cnt \<and>
           (\<forall>j. i \<le> j \<and> j < cnt \<longrightarrow>
                ks' ! (2 * j) = \<lparr>time = Finite (timestamps ! j), key_value = vals ! j\<rparr>) \<and>
           (\<forall>j. i \<le> j \<and> j + 1 < cnt \<longrightarrow>
                ks' ! (2 * j + 1) = \<lparr>time = Finite (timestamps ! (j + 1) - eps), key_value = vals ! j\<rparr>) \<and>
           (\<forall>p. (p < 2 * i \<or> p = 2 * cnt - 1) \<and> p < 2 * cnt \<longrightarrow> ks' ! p = ks ! p)"
  using assms
proof (induction cnt vals timestamps i ks rule: step_loop.induct)
  case (1 cnt vals timestamps i ks)
  note unfold = step_loop.simps [of cnt vals timestamps i ks]
  show ?case
  proof (cases "i < cnt")
    case False
    with unfold "1.prems" show ?thesis by auto
  next
    case True
    define k0 where "k0 = \<lparr>time = Finite (timestamps ! i), key_value = vals ! i\<rparr>"
    define k1 where "k1 = \<lparr>time = Finite (timestamps ! (i + 1) - eps), key_value = vals ! i\<rparr>"
    from True "1.prems" have r0: "read_at timestamps i = Inr (timestamps ! i)"
      and r1: "read_at vals i = Inr (vals ! i)"
      by (simp_all add: read_at_def)
    show ?thesis
    proof (cases "i < cnt - 1")
      case last: False
      with True have i_last: "i = cnt - 1" by simp
      from unfold True last r0 r1 have
        step: "step_loop cnt vals timestamps i ks = step_loop cnt vals timestamps (i + 1) (ks[i * 2 := k0])"
        by (simp add: Let_def k0_def)
      have "length (ks[i * 2 := k0]) = 2 * cnt"
        using "1.prems" by simp
      from "1.IH"(2) [where x = "timestamps ! i" and xa = "vals ! i" and xb = "ks[i * 2 := k0]",
          OF True _ last "1.prems"(1,2) this]
      obtain ks' where
        res: "step_loop cnt vals timestamps (i + 1) (ks[i * 2 := k0]) = Inr ks'" and
        len: "length ks' = 2 * cnt" and
        keep: "\<forall>p. (p < 2 * (i + 1) \<or> p = 2 * cnt - 1) \<and> p < 2 * cnt \<longrightarrow> ks' ! p = (ks[i * 2 := k0]) ! p"
        unfolding k0_def by blast
      have a: "ks' ! (2 * j) = \<lparr>time = Finite (timestamps ! j), key_value = vals ! j\<rparr>"
        if "i \<le> j" "j < cnt" for j
      proof -
        from that i_last have "j = i" by simp
        with keep [rule_format, of "2 * i"] True "1.prems"(3) show ?thesis
          by (simp add: k0_def mult.commute)
      qed
      have b: "ks' ! p = ks ! p" if "p < 2 * i \<or> p = 2 * cnt - 1" "p < 2 * cnt" for p
      proof -
        from that i_last True have "p \<noteq> i * 2" by auto
        moreover from that have "p < 2 * (i + 1) \<or> p = 2 * cnt - 1" by auto
        ultimately show ?thesis using keep [rule_format, of p] that by simp
      qed
      from step res len a b i_last show ?thesis
        by auto
    next
      case more: True
      then have r2: "read_at timestamps (i + 1) = Inr (timestamps ! (i + 1))"
        using "1.prems" by (simp add: read_at_def)
      from unfold True more r0 r1 r2 have
        step: "step_loop cnt vals timestamps i ks =
               step_loop cnt vals timestamps (i + 1) (ks[i * 2 := k0, i * 2 + 1 := k1])"
        by (simp add: Let_def k0_def k1_def)
      have "length (ks[i * 2 := k0, i * 2 + 1 := k1]) = 2 * cnt"
        using "1.prems" by simp
      from "1.IH"(1) [where x = "timestamps ! i" and xa = "vals ! i" and xb = "ks[i * 2 := k0]"
          and xc = "timestamps ! (i + 1)", OF True _ more "1.prems"(1,2)] this
      obtain ks' where
        res: "step_loop cnt vals timestamps (i + 1) (ks[i * 2 := k0, i * 2 + 1 := k1]) = Inr ks'" and
        len: "length ks' = 2 * cnt" and
        ev: "\<forall>j. i + 1 \<le> j \<and> j < cnt \<longrightarrow>
                ks' ! (2 * j) = \<lparr>time = Finite (timestamps ! j), key_value = vals ! j\<rparr>" and
        od: "\<forall>j. i + 1 \<le> j \<and> j + 1 < cnt \<longrightarrow>
                ks' ! (2 * j + 1) = \<lparr>time = Finite (timestamps ! (j + 1) - eps), key_value = vals ! j\<rparr>" and
        keep: "\<forall>p. (p < 2 * (i + 1) \<or> p = 2 * cnt - 1) \<and> p < 2 * cnt \<longrightarrow>
                 ks' ! p = (ks[i * 2 := k0, i * 2 + 1 := k1]) ! p"
        unfolding k0_def k1_def by blast
      have a: "ks' ! (2 * j) = \<lparr>time = Finite (timestamps ! j), key_value = vals ! j\<rparr>"
        if "i \<le> j" "j < cnt" for j
      proof (cases "j = i")
        case True
        with keep [rule_format, of "2 * i"] more "1.prems"(3) show ?thesis
          by (simp add: k0_def mult.commute)
      next
        case False
        with that ev show ?thesis by simp
      qed
      have b: "ks' ! (2 * j + 1) = \<lparr>time = Finite (timestamps ! (j + 1) - eps), key_value = vals ! j\<rparr>"
        if "i \<le> j" "j + 1 < cnt" for j
      proof (cases "j = i")
        case True
        with keep [rule_format, of "2 * i + 1"] more "1.prems"(3) show ?thesis
          by (simp add: k1_def mult.commute)
      next
        case False
        with that od show ?thesis by simp
      qed
      have c: "ks' ! p = ks ! p" if "p < 2 * i \<or> p = 2 * cnt - 1" "p < 2 * cnt" for p
      proof -
        from that more have "p \<noteq> i * 2" "p \<noteq> i * 2 + 1" by auto
        moreover from that have "p < 2 * (i + 1) \<or> p = 2 * cnt - 1" by auto
        ultimately show ?thesis using keep [rule_format, of p] that by simp
      qed
      from step res len a b c show ?thesis
        by auto
    qed
  qed
qed

theorem step_channel_keys:
  assumes "view out = Some vals" and "count out \<le> length vals"
      and "count out \<le> length timestamps"
  shows "\<exists>ks. SampleStepChannel view key0 out timestamps [] = Inr (Done, ks) \<and>
           length ks = 2 * count out \<and>
           (\<forall>i. i < count out \<longrightarrow>
                ks ! (2 * i) = \<lparr>time = Finite (timestamps ! i), key_value = vals ! i\<rparr>) \<and>
           (\<forall>i. i + 1 < count out \<longrightarrow>
                ks ! (2 * i + 1) = \<lparr>time = Finite (timestamps ! (i + 1) - eps), key_value = vals ! i\<rparr>) \<and>
           (0 < count out \<longrightarrow> ks ! (2 * count out - 1) = key0)"
proof -
  define ks0 where "ks0 = resize_vec (count out * 2) key0 []"
  have len: "length ks0 = 2 * count out"
    by (simp add: resize_vec_def ks0_def)
  have ks0: "ks0 ! p = key0" if "p < 2 * count out" for p
    using that by (simp add: resize_vec_def ks0_def)
  from step_loop_result [OF assms(2) assms(3) len, of 0] obtain ks where
    all: "step_loop (count out) vals timestamps 0 ks0 = Inr ks \<and> length ks = 2 * count out \<and>
           (\<forall>j. 0 \<le> j \<and> j < count out \<longrightarrow>
                ks ! (2 * j) = \<lparr>time = Finite (timestamps ! j), key_value = vals ! j\<rparr>) \<and>
           (\<forall>j. 0 \<le> j \<and> j + 1 < count out \<longrightarrow>
                ks ! (2 * j + 1) = \<lparr>time = Finite (timestamps ! (j + 1) - eps), key_value = vals ! j\<rparr>) \<and>
           (\<forall>p. (p < 2 * 0 \<or> p = 2 * count out - 1) \<and> p < 2 * count out \<longrightarrow> ks ! p = ks0 ! p)"
    ..
  note res = all [THEN conjunct1]
    and l = all [THEN conjunct2, THEN conjunct1]
    and ev = all [THEN conjunct2, THEN conjunct2, THEN conjunct1]
    and od = all [THEN conjunct2, THEN conjunct2, THEN conjunct2, THEN conjunct1]
    and keep = all [THEN conjunct2, THEN conjunct2, THEN conjunct2, THEN conjunct2]
  have run: "SampleStepChannel view key0 out timestamps [] = Inr (Done, ks)"
    using assms(1) res by (simp add: SampleStepChannel_def Let_def ks0_def)
  have 1: "ks ! (2 * i) = \<lparr>time = Finite (timestamps ! i), key_value = vals ! i\<rparr>" if "i < count out" for i
    using ev [rule_format, of i] that by simp
  have 2: "ks ! (2 * i + 1) = \<lparr>time = Finite (timestamps ! (i + 1) - eps), key_value = vals ! i\<rparr>"
    if "i + 1 < count out" for i
    using od [rule_format, of i] that by simp
  have 3: "ks ! (2 * count out - 1) = key0" if "0 < count out"
  proof -
    from that have "2 * count out - 1 < 2 * count out" by simp
    with keep [rule_format, of "2 * count out - 1"] ks0 [of "2 * count out - 1"]
    show ?thesis by simp
  qed
  show ?thesis
  proof (intro exI conjI allI impI)
    show "SampleStepChannel view key0 out timestamps [] = Inr (Done, ks)" by (rule run)
    show "length ks = 2 * count out" by (rule l)
    show "ks ! (2 * i) = \<lparr>time = Finite (timestamps ! i), key_value = vals ! i\<rparr>" if "i < count out" for i
      using that by (rule 1)
    show "ks ! (2 * i + 1) = \<lparr>time = Finite (timestamps ! (i + 1) - eps), key_value = vals ! i\<rparr>"
      if "i + 1 < count out" for i
      using that by (rule 2)
    show "ks ! (2 * count out - 1) = key0" if "0 < count out"
      using that by (rule 3)
  qed
qed

theorem step_channel_keys_witness:
  "\<exists>ks. SampleStepChannel (BufferView_Float3 gltf_ozz) Float3_Key0 (accessors step_model ! 1)
          [0, 1] [] = Inr (Done, ks) \<and>
        length ks = 2 * count (accessors step_model ! 1) \<and>
        (\<forall>i. i < count (accessors step_model ! 1) \<longrightarrow>
             ks ! (2 * i) =
               \<lparr>time = Finite ([0, 1] ! i), key_value = [Float3_of 1 2 3, Float3_of 4 5 6] ! i\<rparr>) \<and>
        (\<forall>i. i + 1 < count (accessors step_model ! 1) \<longrightarrow>
             ks ! (2 * i + 1) =
               \<lparr>time = Finite ([0, 1] ! (i + 1) - eps),
                key_value = [Float3_of 1 2 3, Float3_of 4 5 6] ! i\<rparr>) \<and>
        (0 < count (accessors step_model ! 1) \<longrightarrow>
             ks ! (2 * count (accessors step_model ! 1) - 1) = Float3_Key0)"
  by (rule step_channel_keys) (simp_all add: step_model_def run_defs)

text \<open>
  A CUBICSPLINE channel, for the sampling rate and the duration that the sampler
  itself receives: \<open>\<lfloor>duration * samplingRate\<rfloor> + 1\<close> keys, key \<open>i\<close> at time
  \<open>i / samplingRate\<close>, which is not finite when the rate is zero. One round of the
  outer loop never moves the cursor back, and never beyond \<open>numKeyframes - 1\<close> unless
  it was there before.
\<close>

lemma advance_bounds:
  "advance timestamps t bound c = Inr c' \<Longrightarrow> c \<le> c' \<and> c' \<le> max c bound \<and> c' < length timestamps"
proof (induction timestamps t bound c rule: advance.induct)
  case (1 timestamps t bound currentKey)
  note unfold = advance.simps [of timestamps t bound currentKey]
  show ?case
  proof (cases "currentKey < length timestamps")
    case False
    with "1.prems" unfold show ?thesis by simp
  next
    case inside: True
    show ?thesis
    proof (cases "greater_than (timestamps ! currentKey) t \<and> currentKey < bound")
      case True
      with "1.prems" unfold inside have "advance timestamps t bound (currentKey + 1) = Inr c'"
        by simp
      from "1.IH" [OF inside True this] True show ?thesis by linarith
    next
      case False
      with "1.prems" unfold inside have "c' = currentKey" by auto
      with inside show ?thesis by simp
    qed
  qed
qed

lemma spline_key_Inr:
  assumes "spline_key vmul vadd vals timestamps rate numKeyframes i c = Inr (c', key)"
  shows "time key = fdiv (Finite (real i)) rate \<and> c \<le> c' \<and> c' \<le> max c (size_t_pred numKeyframes)"
proof -
  from assms obtain cur where
    adv: "advance timestamps (fdiv (Finite (real i)) rate) (size_t_pred numKeyframes) c = Inr cur" and
    "cur = c' \<and> time key = fdiv (Finite (real i)) rate"
    by (auto simp: spline_key_def bindA_eq_Inr Let_def)
  with advance_bounds [OF adv] show ?thesis by simp
qed

lemma spline_loop_result:
  "spline_loop vmul vadd vals timestamps rate numKeyframes i c ks = Inr ks' \<Longrightarrow>
   length ks' = length ks \<and>
   (\<forall>j. i \<le> j \<and> j < length ks \<longrightarrow> time (ks' ! j) = fdiv (Finite (real j)) rate) \<and>
   (\<forall>j. j < i \<longrightarrow> ks' ! j = ks ! j)"
proof (induction vmul vadd vals timestamps rate numKeyframes i c ks rule: spline_loop.induct)
  case (1 vmul vadd vals timestamps rate numKeyframes i c ks)
  note unfold = spline_loop.simps [of vmul vadd vals timestamps rate numKeyframes i c ks]
  show ?case
  proof (cases "i < length ks")
    case False
    with "1.prems" unfold show ?thesis by auto
  next
    case True
    with "1.prems" unfold obtain c1 key where
      sk: "spline_key vmul vadd vals timestamps rate numKeyframes i c = Inr (c1, key)" and
      rest: "spline_loop vmul vadd vals timestamps rate numKeyframes (i + 1) c1 (ks[i := key]) = Inr ks'"
      by (auto split: sum.splits)
    from "1.IH" [OF True sk refl rest] have
      len: "length ks' = length ks" and
      later: "\<And>j. i + 1 \<le> j \<Longrightarrow> j < length ks \<Longrightarrow> time (ks' ! j) = fdiv (Finite (real j)) rate" and
      earlier: "\<And>j. j < i + 1 \<Longrightarrow> ks' ! j = (ks[i := key]) ! j"
      by auto
    from earlier [of i] True have "ks' ! i = key" by simp
    with spline_key_Inr [OF sk] have here: "time (ks' ! i) = fdiv (Finite (real i)) rate" by simp
    have "time (ks' ! j) = fdiv (Finite (real j)) rate" if "i \<le> j" "j < length ks" for j
      using that later [of j] here by (cases "j = i") auto
    moreover have "ks' ! j = ks ! j" if "j < i" for j
      using that earlier [of j] by simp
    ultimately show ?thesis using len by blast
  qed
qed

theorem spline_channel_keys_are_evenly_spaced:
  assumes "SampleCubicSplineChannel ndebug view vmul vadd key0 out timestamps keyframes rate dur
             = Inr (Done, ks)"
  shows "int (length ks) = \<lfloor>dur * rate\<rfloor> + 1 \<and>
         map time ks = map (\<lambda>i. fdiv (Finite (real i)) rate) [0 ..< length ks]"
proof -
  from assms obtain vals where
    n: "0 \<le> \<lfloor>dur * rate\<rfloor> + 1" and
    loop: "spline_loop vmul vadd vals timestamps rate (count out div 3) 0 0
             (resize_vec (nat (\<lfloor>dur * rate\<rfloor> + 1)) key0 keyframes) = Inr ks"
    by (auto simp: SampleCubicSplineChannel_def bindA_eq_Inr Let_def
        split: option.splits if_splits)
  have len: "length (resize_vec (nat (\<lfloor>dur * rate\<rfloor> + 1)) key0 keyframes) = nat (\<lfloor>dur * rate\<rfloor> + 1)"
    by (simp add: resize_vec_def)
  from spline_loop_result [OF loop] len have
    l: "length ks = nat (\<lfloor>dur * rate\<rfloor> + 1)" and
    t: "\<And>j. j < length ks \<Longrightarrow> time (ks ! j) = fdiv (Finite (real j)) rate"
    by auto
  have "map time ks = map (\<lambda>i. fdiv (Finite (real i)) rate) [0 ..< length ks]"
    by (rule nth_equalityI) (simp_all add: t)
  with l n show ?thesis by simp
qed

lemma run_spline:
  "SampleCubicSplineChannel ndebug (BufferView_Float3 gltf_ozz) Float3_mul Float3_add Float3_Key0
     (accessors spline_model ! 1) [0, 2] [] 2 2 = Inr (Done, spline_keys)"
  by (simp add: SampleCubicSplineChannel_def spline_key_def SampleHermiteSpline_def
      size_t_pred_def spline_model_def spline_keys_def run_defs loop_simps)

theorem spline_spacing_witness:
  "int (length spline_keys) = \<lfloor>2 * 2 :: real\<rfloor> + 1 \<and>
   map time spline_keys = map (\<lambda>i. fdiv (Finite (real i)) 2) [0 ..< length spline_keys]"
  by (rule spline_channel_keys_are_evenly_spaced [OF run_spline])

theorem spline_cursor_stays_below_the_count:
  assumes "spline_key vmul vadd vals timestamps rate numKeyframes i c = Inr (c', key)"
  shows "c \<le> c' \<and> c' \<le> max c (size_t_pred numKeyframes)"
  using spline_key_Inr [OF assms] by simp

lemma run_spline_key:
  "spline_key Float3_mul Float3_add
     [Float3_of 0 0 0, Float3_of 1 1 1, Float3_of 0 0 0, Float3_of 0 0 0, Float3_of 3 3 3, Float3_of 0 0 0]
     [0, 2] 1 2 1 0 = Inr (0, \<lparr>time = Finite 1, key_value = Float3_of 2 2 2\<rparr>)"
  by (simp add: spline_key_def SampleHermiteSpline_def size_t_pred_def run_defs loop_simps)

theorem spline_cursor_witness:
  "(0::nat) \<le> 0 \<and> (0::nat) \<le> max 0 (size_t_pred 2)"
  by (rule spline_cursor_stays_below_the_count [OF run_spline_key])

end
